theory Spec2Isabelle
  imports Complex_Main "HOL-Library.Char_ord" "HOL-Library.List_Lexorder"
    "HOL-Library.Product_Lexorder"
begin

section \<open>Python strings and the URL functions of the standard library\<close>

text \<open>
  A Python \<open>str\<close> is modelled by the list of the bytes of its UTF-8 encoding, so an
  ASCII string is the list of its characters. A lone surrogate, which a \<open>str\<close> may
  hold and UTF-8 cannot encode, is the three bytes of its generalized form, \<open>ED\<close>
  followed by a byte from \<open>A0\<close> to \<open>BF\<close> and one more. Comparing two such lists
  byte by byte orders them as Python orders the strings (by code point). \<open>str.lower\<close>,
  \<open>str.isalpha\<close> and \<open>str.split\<close> are modelled on the ASCII characters: the URLs
  and texts the theorems below evaluate are ASCII.

  The functions of \<open>urllib.parse\<close> and \<open>ipaddress\<close> which the crawler calls are
  not part of the repository; they are transcribed from CPython 3.11.
\<close>

datatype py_error =
  ValueError | AttributeError | LookupError | UnicodeDecodeError | UnicodeEncodeError
  | DatabaseError

definition ascii_uppercase :: string where
  "ascii_uppercase = ''ABCDEFGHIJKLMNOPQRSTUVWXYZ''"

definition ascii_lowercase :: string where
  "ascii_lowercase = ''abcdefghijklmnopqrstuvwxyz''"

definition digits :: string where
  "digits = ''0123456789''"

definition lower_char :: "char \<Rightarrow> char" where
  "lower_char c = (case map_of (zip ascii_uppercase ascii_lowercase) c of
                     Some d \<Rightarrow> d | None \<Rightarrow> c)"

definition lower :: "string \<Rightarrow> string" where
  "lower s = map lower_char s"

text \<open>\<open>s.partition(c)\<close>: the text before the first \<open>c\<close>, whether \<open>c\<close> occurs, and
  the text after it.\<close>

definition partition_at :: "char \<Rightarrow> string \<Rightarrow> string \<times> bool \<times> string" where
  "partition_at c s =
     (takeWhile (\<lambda>x. x \<noteq> c) s, c \<in> set s, drop 1 (dropWhile (\<lambda>x. x \<noteq> c) s))"

text \<open>\<open>s.split(c)\<close> with a one-character separator; \<open>''.split(c)\<close> is \<open>['']\<close>.\<close>

fun split_on :: "char \<Rightarrow> string \<Rightarrow> string list" where
  "split_on c [] = [[]]"
| "split_on c (x # xs) =
     (if x = c then [] # split_on c xs
      else (case split_on c xs of
              [] \<Rightarrow> [[x]]
            | w # ws \<Rightarrow> (x # w) # ws))"

fun join :: "string \<Rightarrow> string list \<Rightarrow> string" where
  "join sep [] = []"
| "join sep [w] = w"
| "join sep (w # ws) = w @ sep @ join sep ws"

text \<open>\<open>s.encode('utf-8')\<close> returns the bytes of \<open>s\<close>, and raises UnicodeEncodeError
  when \<open>s\<close> holds a lone surrogate. \<open>utf8_encodable s\<close> says that it does not
  raise.\<close>

fun utf8_encodable :: "string \<Rightarrow> bool" where
  "utf8_encodable [] = True"
| "utf8_encodable [c] = True"
| "utf8_encodable (c # d # cs) =
     (\<not> (c = CHR 0xED \<and> 0xA0 \<le> (of_char d :: nat) \<and> (of_char d :: nat) \<le> 0xBF)
      \<and> utf8_encodable (d # cs))"


subsection \<open>\<open>ipaddress\<close>: the check of a bracketed host\<close>

definition digit_value :: "char \<Rightarrow> nat" where
  "digit_value c = of_char c - 48"

definition decimal_value :: "string \<Rightarrow> nat" where
  "decimal_value s = foldl (\<lambda>n c. 10 * n + digit_value c) 0 s"

definition parse_octet_ok :: "string \<Rightarrow> bool" where
  "parse_octet_ok octet_str =
     (octet_str \<noteq> [] \<and> (\<forall>c \<in> set octet_str. c \<in> set digits) \<and> length octet_str \<le> 3
      \<and> \<not> (octet_str \<noteq> ''0'' \<and> hd octet_str = CHR ''0'')
      \<and> decimal_value octet_str \<le> 255)"

definition ipv4_ok :: "string \<Rightarrow> bool" where
  "ipv4_ok ip_str =
     (CHR ''/'' \<notin> set ip_str \<and> ip_str \<noteq> [] \<and>
      (let octets = split_on CHR ''.'' ip_str
       in length octets = 4 \<and> (\<forall>octet \<in> set octets. parse_octet_ok octet)))"

definition parse_hextet_ok :: "string \<Rightarrow> bool" where
  "parse_hextet_ok hextet_str =
     ((\<forall>c \<in> set hextet_str. c \<in> set ''0123456789ABCDEFabcdef'')
      \<and> length hextet_str \<le> 4 \<and> hextet_str \<noteq> [])"

text \<open>\<open>IPv6Address._ip_int_from_string\<close>, kept to whether it raises. A dotted last
  part is an IPv4 address, replaced by two hextets (written \<open>''0''\<close> here, any two
  well-formed hextets do).\<close>

definition ipv6_parts_ok :: "string list \<Rightarrow> bool" where
  "ipv6_parts_ok parts0 =
     (length parts0 \<ge> 3 \<and>
      (CHR ''.'' \<in> set (last parts0) \<longrightarrow> ipv4_ok (last parts0)) \<and>
      (let parts = (if CHR ''.'' \<in> set (last parts0)
                    then butlast parts0 @ [''0'', ''0''] else parts0);
           n = length parts;
           skips = filter (\<lambda>i. parts ! i = []) [1 ..< n - 1]
       in n \<le> 9 \<and> length skips \<le> 1 \<and>
          (case skips of
             [] \<Rightarrow> n = 8 \<and> hd parts \<noteq> [] \<and> last parts \<noteq> []
                   \<and> (\<forall>p \<in> set parts. parse_hextet_ok p)
           | skip_index # _ \<Rightarrow>
               (let hi0 = skip_index; lo0 = n - skip_index - 1;
                    parts_hi = (if hd parts = [] then hi0 - 1 else hi0);
                    parts_lo = (if last parts = [] then lo0 - 1 else lo0)
                in (hd parts = [] \<longrightarrow> parts_hi = 0)
                   \<and> (last parts = [] \<longrightarrow> parts_lo = 0)
                   \<and> parts_hi + parts_lo \<le> 7
                   \<and> (\<forall>p \<in> set (take parts_hi parts). parse_hextet_ok p)
                   \<and> (\<forall>p \<in> set (drop (n - parts_lo) parts). parse_hextet_ok p)))))"

definition ipv6_ok :: "string \<Rightarrow> bool" where
  "ipv6_ok address =
     (CHR ''/'' \<notin> set address \<and>
      (case partition_at CHR ''%'' address of
         (addr_str, sep, scope_id) \<Rightarrow>
           (sep \<longrightarrow> scope_id \<noteq> [] \<and> CHR ''%'' \<notin> set scope_id)
           \<and> addr_str \<noteq> [] \<and> ipv6_parts_ok (split_on CHR '':'' addr_str)))"

text \<open>\<open>_check_bracketed_host\<close>: an IPvFuture literal matching
  \<open>\Av[a-fA-F0-9]+\..+\Z\<close>, or an address that \<open>ip_address\<close> accepts and that is not
  IPv4. True when the check passes, False when it raises ValueError. (The \<open>.\<close> of the
  pattern excludes a line feed, which \<open>urlsplit\<close> has removed before.)\<close>

definition check_bracketed_host :: "string \<Rightarrow> bool" where
  "check_bracketed_host hostname =
     (if take 1 hostname = ''v''
      then (let hex = takeWhile (\<lambda>c. c \<in> set ''0123456789ABCDEFabcdef'') (drop 1 hostname);
                rest = drop (1 + length hex) hostname
            in hex \<noteq> [] \<and> take 1 rest = ''.'' \<and> length rest \<ge> 2
               \<and> CHR 0x0A \<notin> set (drop 1 rest))
      else \<not> ipv4_ok hostname \<and> ipv6_ok hostname)"

subsection \<open>\<open>urlsplit\<close>, \<open>urlparse\<close>, \<open>urlunparse\<close>\<close>

definition uses_netloc :: "string list" where
  "uses_netloc = ['''', ''ftp'', ''http'', ''gopher'', ''nntp'', ''telnet'',
     ''imap'', ''wais'', ''file'', ''mms'', ''https'', ''shttp'',
     ''snews'', ''prospero'', ''rtsp'', ''rtsps'', ''rtspu'', ''rsync'',
     ''svn'', ''svn+ssh'', ''sftp'', ''nfs'', ''git'', ''git+ssh'',
     ''ws'', ''wss'']"

definition uses_params :: "string list" where
  "uses_params = ['''', ''ftp'', ''hdl'', ''prospero'', ''http'', ''imap'',
     ''https'', ''shttp'', ''rtsp'', ''rtsps'', ''rtspu'', ''sip'',
     ''sips'', ''mms'', ''sftp'', ''tel'']"

definition scheme_chars :: string where
  "scheme_chars = ascii_lowercase @ ascii_uppercase @ digits @ ''+-.''"

record ParseResult =
  scheme :: string
  netloc :: string
  path :: string
  params :: string
  query :: string
  fragment :: string

text \<open>\<open>urlsplit(url)\<close> with the default \<open>scheme=''\<close> and \<open>allow_fragments=True\<close>; the
  record's \<open>params\<close> is filled by \<open>urlparse\<close>. \<open>_checknetloc\<close> returns at once on an
  ASCII netloc and is left out.\<close>

definition urlsplit :: "string \<Rightarrow> py_error + ParseResult" where
  "urlsplit url0 =
     (let url1 = dropWhile (\<lambda>c. (of_char c :: nat) \<le> 32) url0;
          url2 = filter (\<lambda>c. c \<notin> set [CHR 0x09, CHR 0x0D, CHR 0x0A]) url1;
          i = length (takeWhile (\<lambda>c. c \<noteq> CHR '':'') url2);
          has_scheme = (CHR '':'' \<in> set url2 \<and> i > 0
                        \<and> hd url2 \<in> set (ascii_lowercase @ ascii_uppercase)
                        \<and> (\<forall>c \<in> set (take i url2). c \<in> set scheme_chars));
          scheme' = (if has_scheme then lower (take i url2) else []);
          url3 = (if has_scheme then drop (i + 1) url2 else url2);
          has_netloc = (take 2 url3 = ''//'');
          netloc' = (if has_netloc
                     then takeWhile (\<lambda>c. c \<notin> set ''/?#'') (drop 2 url3) else []);
          url4 = (if has_netloc
                  then dropWhile (\<lambda>c. c \<notin> set ''/?#'') (drop 2 url3) else url3);
          lb = (CHR ''['' \<in> set netloc');
          rb = (CHR '']'' \<in> set netloc')
      in if has_netloc \<and> ((lb \<and> \<not> rb) \<or> (rb \<and> \<not> lb)) then Inl ValueError
         else if has_netloc \<and> lb \<and> rb
                 \<and> \<not> check_bracketed_host
                        (fst (partition_at CHR '']''
                           (snd (snd (partition_at CHR ''['' netloc')))))
         then Inl ValueError
         else (case partition_at CHR ''#'' url4 of
                 (url5, _, fragment') \<Rightarrow>
                   (case partition_at CHR ''?'' url5 of
                      (url6, _, query') \<Rightarrow>
                        Inr \<lparr>scheme = scheme', netloc = netloc', path = url6,
                             params = [], query = query', fragment = fragment'\<rparr>)))"

text \<open>\<open>_splitparams\<close>: the parameters start at the first \<open>;\<close> of the last path
  segment.\<close>

definition splitparams :: "string \<Rightarrow> string \<times> string" where
  "splitparams url =
     (let start = (if CHR ''/'' \<in> set url
                   then length url - 1 - length (takeWhile (\<lambda>c. c \<noteq> CHR ''/'') (rev url))
                   else 0);
          seg = drop start url
      in if CHR '';'' \<in> set seg
         then (take start url @ takeWhile (\<lambda>c. c \<noteq> CHR '';'') seg,
               drop 1 (dropWhile (\<lambda>c. c \<noteq> CHR '';'') seg))
         else (url, []))"

definition urlparse :: "string \<Rightarrow> py_error + ParseResult" where
  "urlparse url =
     (case urlsplit url of
        Inl e \<Rightarrow> Inl e
      | Inr r \<Rightarrow>
          if scheme r \<in> set uses_params \<and> CHR '';'' \<in> set (path r)
          then (case splitparams (path r) of
                  (url', params') \<Rightarrow> Inr (r\<lparr>path := url', params := params'\<rparr>))
          else Inr r)"

definition urlunsplit :: "string \<Rightarrow> string \<Rightarrow> string \<Rightarrow> string \<Rightarrow> string \<Rightarrow> string" where
  "urlunsplit scheme' netloc' url query' fragment' =
     (let url1 = (if netloc' \<noteq> [] \<or> (scheme' \<noteq> [] \<and> scheme' \<in> set uses_netloc)
                     \<or> take 2 url = ''//''
                  then ''//'' @ netloc'
                       @ (if url \<noteq> [] \<and> take 1 url \<noteq> ''/'' then ''/'' @ url else url)
                  else url);
          url2 = (if scheme' \<noteq> [] then scheme' @ '':'' @ url1 else url1);
          url3 = (if query' \<noteq> [] then url2 @ ''?'' @ query' else url2)
      in if fragment' \<noteq> [] then url3 @ ''#'' @ fragment' else url3)"

definition urlunparse :: "ParseResult \<Rightarrow> string" where
  "urlunparse r =
     urlunsplit (scheme r) (netloc r)
       (if params r \<noteq> [] then path r @ '';'' @ params r else path r)
       (query r) (fragment r)"

section \<open>The URL frontier (\<open>src/crawler/url_frontier.py\<close>)\<close>

datatype URLPriority = LOW | NORMAL | HIGH | CRITICAL

fun priority_value :: "URLPriority \<Rightarrow> int" where
  "priority_value LOW = 1"
| "priority_value NORMAL = 2"
| "priority_value HIGH = 3"
| "priority_value CRITICAL = 4"

record URLTask =
  url :: string
  depth :: int
  priority :: URLPriority
  parent_url :: "string option"
  discovered_time :: real
  retry_count :: int

text \<open>
  The Redis server, as far as the frontier uses it: the lists under the keys
  \<open>crawler:domain:<domain>\<close> and the set \<open>crawler:processed_urls\<close>. A list element is
  \<open>json.dumps(task.to_dict())\<close>; \<open>to_dict\<close> holds the six fields of the task, so the
  element is modelled by the task record. Every call of the client either succeeds or
  raises; the flag \<open>ok\<close> that the operations below take says which, and a call that
  raises leaves the server as it was.
\<close>

record redis =
  redis_lists :: "string \<Rightarrow> URLTask list"
  redis_sets :: "string \<Rightarrow> string set"

definition rpush :: "redis \<Rightarrow> string \<Rightarrow> URLTask \<Rightarrow> redis" where
  "rpush r key v = r\<lparr>redis_lists := (redis_lists r)(key := redis_lists r key @ [v])\<rparr>"

definition lrem1 :: "redis \<Rightarrow> string \<Rightarrow> URLTask \<Rightarrow> redis" where
  "lrem1 r key v = r\<lparr>redis_lists := (redis_lists r)(key := remove1 v (redis_lists r key))\<rparr>"

definition sadd :: "redis \<Rightarrow> string \<Rightarrow> string \<Rightarrow> redis" where
  "sadd r key v = r\<lparr>redis_sets := (redis_sets r)(key := insert v (redis_sets r key))\<rparr>"

definition delete :: "redis \<Rightarrow> string \<Rightarrow> redis" where
  "delete r key = r\<lparr>redis_lists := (redis_lists r)(key := [])\<rparr>"

definition processed_key :: string where
  "processed_key = ''crawler:processed_urls''"

definition domain_queue_prefix :: string where
  "domain_queue_prefix = ''crawler:domain:''"

text \<open>
  \<open>domain_queues\<close> is a \<open>defaultdict(deque)\<close>: a dictionary that keeps the order in
  which its keys were inserted, which \<open>get_next_url\<close> iterates. It is an association
  list in that order.
\<close>

record URLFrontier =
  redis_client :: redis
  politeness_delay :: real
  domain_queues :: "(string \<times> URLTask list) list"
  domain_last_access :: "string \<rightharpoonup> real"
  processed_urls :: "string set"

definition URLFrontier_init :: "redis \<Rightarrow> real \<Rightarrow> URLFrontier" where
  "URLFrontier_init r d =
     \<lparr>redis_client = r, politeness_delay = d, domain_queues = [],
      domain_last_access = Map.empty, processed_urls = {}\<rparr>"

definition get_domain :: "string \<Rightarrow> string" where
  "get_domain u = (case urlparse u of Inl _ \<Rightarrow> ''unknown'' | Inr parsed \<Rightarrow> lower (netloc parsed))"

text \<open>\<open>self.domain_queues[domain].append(task)\<close>: a missing key is inserted, last, with
  an empty deque.\<close>

fun queue_append :: "(string \<times> URLTask list) list \<Rightarrow> string \<Rightarrow> URLTask
    \<Rightarrow> (string \<times> URLTask list) list" where
  "queue_append [] domain task = [(domain, [task])]"
| "queue_append ((d, q) # rest) domain task =
     (if d = domain then (d, q @ [task]) # rest
      else (d, q) # queue_append rest domain task)"

definition add_url :: "URLFrontier \<Rightarrow> bool \<Rightarrow> URLTask \<Rightarrow> bool \<times> URLFrontier" where
  "add_url s ok task =
     (if url task \<in> processed_urls s then (False, s)
      else
        let domain = get_domain (url task);
            s1 = s\<lparr>domain_queues := queue_append (domain_queues s) domain task\<rparr>
        in if ok
           then (True, s1\<lparr>redis_client :=
                             rpush (redis_client s1) (domain_queue_prefix @ domain) task\<rparr>)
           else (False, s1))"

text \<open>\<open>add_urls\<close>: one flag per task for its \<open>rpush\<close> (a missing flag counts as
  success).\<close>

fun add_urls :: "URLFrontier \<Rightarrow> bool list \<Rightarrow> URLTask list \<Rightarrow> int \<times> URLFrontier" where
  "add_urls s oks [] = (0, s)"
| "add_urls s oks (task # tasks) =
     (case add_url s (case oks of [] \<Rightarrow> True | ok # _ \<Rightarrow> ok) task of
        (added, s1) \<Rightarrow>
          (case add_urls s1 (drop 1 oks) tasks of
             (added_count, s2) \<Rightarrow> ((if added then 1 else 0) + added_count, s2)))"

definition time_since_access :: "URLFrontier \<Rightarrow> real \<Rightarrow> string \<Rightarrow> real" where
  "time_since_access s current_time domain =
     current_time - (case domain_last_access s domain of None \<Rightarrow> 0 | Some t \<Rightarrow> t)"

text \<open>\<open>max(queue, key=...)\<close> returns the first of the maximal elements.\<close>

fun max_by :: "('a \<Rightarrow> int) \<Rightarrow> 'a \<Rightarrow> 'a list \<Rightarrow> 'a" where
  "max_by key best [] = best"
| "max_by key best (x # xs) = max_by key (if key x > key best then x else best) xs"

fun available_domains :: "URLFrontier \<Rightarrow> real \<Rightarrow> (string \<times> URLTask list) list
    \<Rightarrow> (string \<times> URLTask \<times> real) list" where
  "available_domains s current_time [] = []"
| "available_domains s current_time ((domain, queue) # rest) =
     (case queue of
        [] \<Rightarrow> available_domains s current_time rest
      | t # ts \<Rightarrow>
          if time_since_access s current_time domain \<ge> politeness_delay s
          then (domain, max_by (\<lambda>t. priority_value (priority t)) t ts,
                time_since_access s current_time domain)
               # available_domains s current_time rest
          else available_domains s current_time rest)"

text \<open>\<open>list.sort(key=..., reverse=True)\<close> is stable: CPython reverses the list, sorts
  it stably in ascending order and reverses the result. The key is the pair (priority
  value, time since last access), compared lexicographically.\<close>

definition sort_reverse :: "('a \<Rightarrow> 'k::linorder) \<Rightarrow> 'a list \<Rightarrow> 'a list" where
  "sort_reverse key xs = rev (sort_key key (rev xs))"

definition sorted_available :: "URLFrontier \<Rightarrow> real \<Rightarrow> (string \<times> URLTask \<times> real) list" where
  "sorted_available s current_time =
     sort_reverse (\<lambda>x. (priority_value (priority (fst (snd x))), snd (snd x)))
       (available_domains s current_time (domain_queues s))"

text \<open>The scan for \<open>best_task\<close> and \<open>best_index\<close>.\<close>

fun find_best :: "(URLTask \<times> nat) option \<Rightarrow> nat \<Rightarrow> URLTask list \<Rightarrow> (URLTask \<times> nat) option" where
  "find_best best i [] = best"
| "find_best best i (task # tasks) =
     find_best
       (case best of
          None \<Rightarrow> Some (task, i)
        | Some (best_task, best_index) \<Rightarrow>
            if priority_value (priority task) > priority_value (priority best_task)
            then Some (task, i) else best)
       (i + 1) tasks"

text \<open>\<open>self.domain_queues[selected_domain]\<close> reads the deque of a key (creating an empty
  one if the key is missing, which the selection excludes).\<close>

definition queue_of :: "(string \<times> URLTask list) list \<Rightarrow> string \<Rightarrow> URLTask list" where
  "queue_of dq domain = (case map_of dq domain of None \<Rightarrow> [] | Some q \<Rightarrow> q)"

fun queue_update :: "(string \<times> URLTask list) list \<Rightarrow> string \<Rightarrow> URLTask list
    \<Rightarrow> (string \<times> URLTask list) list" where
  "queue_update [] domain q' = [(domain, q')]"
| "queue_update ((d, q) # rest) domain q' =
     (if d = domain then (d, q') # rest else (d, q) # queue_update rest domain q')"

definition get_next_url :: "URLFrontier \<Rightarrow> real \<Rightarrow> bool \<Rightarrow> URLTask option \<times> URLFrontier" where
  "get_next_url s current_time ok =
     (case sorted_available s current_time of
        [] \<Rightarrow> (None, s)
      | (selected_domain, _, _) # _ \<Rightarrow>
          (let queue = queue_of (domain_queues s) selected_domain
           in case find_best None 0 queue of
                None \<Rightarrow> (None, s)
              | Some (best_task, best_index) \<Rightarrow>
                  (let s1 = s\<lparr>domain_queues :=
                                 queue_update (domain_queues s) selected_domain
                                   (take best_index queue @ drop (best_index + 1) queue)\<rparr>;
                       s2 = s1\<lparr>domain_last_access :=
                                  (domain_last_access s1)(selected_domain \<mapsto> current_time)\<rparr>;
                       s3 = (if ok
                             then s2\<lparr>redis_client :=
                                       lrem1 (redis_client s2)
                                         (domain_queue_prefix @ selected_domain) best_task\<rparr>
                             else s2)
                   in (Some best_task, s3))))"

text \<open>The host whose queue a call of \<open>get_next_url\<close> takes its task from, if it returns
  one.\<close>

definition served_domain :: "URLFrontier \<Rightarrow> real \<Rightarrow> string option" where
  "served_domain s current_time =
     (case sorted_available s current_time of
        [] \<Rightarrow> None
      | (selected_domain, _, _) # _ \<Rightarrow>
          (case find_best None 0 (queue_of (domain_queues s) selected_domain) of
             None \<Rightarrow> None
           | Some _ \<Rightarrow> Some selected_domain))"

definition mark_processed :: "URLFrontier \<Rightarrow> bool \<Rightarrow> string \<Rightarrow> URLFrontier" where
  "mark_processed s ok u =
     (let s1 = s\<lparr>processed_urls := insert u (processed_urls s)\<rparr>
      in if ok then s1\<lparr>redis_client := sadd (redis_client s1) processed_key u\<rparr> else s1)"

text \<open>\<open>mark_failed\<close> updates the task object it is given; the updated task is returned
  with the result. (The scheduler passes a task that \<open>get_next_url\<close> has taken out of
  its queue, so no queue holds the object.)\<close>

definition mark_failed :: "URLFrontier \<Rightarrow> bool \<Rightarrow> URLTask \<Rightarrow> int
    \<Rightarrow> bool \<times> URLTask \<times> URLFrontier" where
  "mark_failed s ok task max_retries =
     (if retry_count task < max_retries
      then (let task1 = task\<lparr>retry_count := retry_count task + 1\<rparr>;
                task2 = task1\<lparr>priority := LOW\<rparr>
            in (True, task2, snd (add_url s ok task2)))
      else (False, task, mark_processed s ok (url task)))"

definition is_empty :: "URLFrontier \<Rightarrow> bool" where
  "is_empty s = (\<forall>(d, q) \<in> set (domain_queues s). length q = 0)"

text \<open>\<open>cleanup\<close>: \<open>ok\<close> says for each domain whether the \<open>delete\<close> of its key
  succeeds.\<close>

definition cleanup :: "URLFrontier \<Rightarrow> (string \<Rightarrow> bool) \<Rightarrow> URLFrontier" where
  "cleanup s ok =
     (let empty_domains = map fst (filter (\<lambda>(d, q). q = []) (domain_queues s))
      in s\<lparr>domain_queues := filter (\<lambda>(d, q). q \<noteq> []) (domain_queues s),
            redis_client :=
              fold (\<lambda>d r. if ok d then delete r (domain_queue_prefix @ d) else r)
                empty_domains (redis_client s)\<rparr>)"

text \<open>
  A run of the frontier: the calls that the workers make, one after the other.
  (The workers are coroutines of one event loop, and no method of the frontier
  suspends between reading and updating the in-memory structures, so calls do not
  interleave there.) \<open>Next t ok\<close> is a call of \<open>get_next_url\<close> at which \<open>time.time()\<close>
  returns \<open>t\<close>.
\<close>

datatype frontier_op =
    Add URLTask bool
  | Next real bool
  | MarkProcessed string bool
  | MarkFailed URLTask int bool
  | Cleanup "string \<Rightarrow> bool"

fun step :: "URLFrontier \<Rightarrow> frontier_op \<Rightarrow> URLFrontier" where
  "step s (Add task ok) = snd (add_url s ok task)"
| "step s (Next t ok) = snd (get_next_url s t ok)"
| "step s (MarkProcessed u ok) = mark_processed s ok u"
| "step s (MarkFailed task max_retries ok) = snd (snd (mark_failed s ok task max_retries))"
| "step s (Cleanup ok) = cleanup s ok"

fun run :: "URLFrontier \<Rightarrow> frontier_op list \<Rightarrow> URLFrontier" where
  "run s [] = s"
| "run s (op # ops) = run (step s op) ops"


text \<open>The spec's words: a host is ready iff its queue is non-empty and the time since
  its last access is at least the politeness delay.\<close>

definition ready_spec :: "URLFrontier \<Rightarrow> real \<Rightarrow> string \<Rightarrow> bool" where
  "ready_spec s now h =
     (h \<in> fst ` set (domain_queues s) \<and> queue_of (domain_queues s) h \<noteq> []
      \<and> now - (case domain_last_access s h of None \<Rightarrow> 0 | Some t \<Rightarrow> t) \<ge> politeness_delay s)"

text \<open>Every queued task is filed under \<open>get_domain\<close> of its URL, and the dictionary
  has one queue per key. \<open>add_url\<close> files tasks so; \<open>initialize\<close>, which reloads the
  queues from Redis under the part of the key after its last colon, is not part of
  this development.\<close>

definition filed :: "URLFrontier \<Rightarrow> bool" where
  "filed s =
     (distinct (map fst (domain_queues s))
      \<and> (\<forall>(d, q) \<in> set (domain_queues s). \<forall>t \<in> set q. get_domain (url t) = d))"




subsection \<open>Example states\<close>

definition redis0 :: redis where
  "redis0 = \<lparr>redis_lists = (\<lambda>_. []), redis_sets = (\<lambda>_. {})\<rparr>"

definition task_a :: URLTask where
  "task_a = \<lparr>url = ''https://a.example/'', depth = 0, priority = HIGH,
             parent_url = None, discovered_time = 0, retry_count = 0\<rparr>"

definition task_ax :: URLTask where
  "task_ax = \<lparr>url = ''https://a.example/x'', depth = 0, priority = HIGH,
              parent_url = None, discovered_time = 0, retry_count = 0\<rparr>"

definition task_b :: URLTask where
  "task_b = \<lparr>url = ''https://b.example/private'', depth = 1, priority = NORMAL,
             parent_url = Some ''https://a.example/'', discovered_time = 1, retry_count = 3\<rparr>"

text \<open>Two queued tasks of one host, fetched from 10 seconds ago, with a politeness
  delay of 2 seconds.\<close>

definition frontier_a :: URLFrontier where
  "frontier_a =
     \<lparr>redis_client = redis0, politeness_delay = 2,
      domain_queues = [(''a.example'', [task_a, task_ax])],
      domain_last_access = [''a.example'' \<mapsto> 90], processed_urls = {}\<rparr>"

text \<open>\<open>frontier_a\<close> after \<open>get_next_url\<close> has handed out \<open>task_a\<close> at time 100.\<close>

definition frontier_a1 :: URLFrontier where
  "frontier_a1 =
     \<lparr>redis_client = lrem1 redis0 ''crawler:domain:a.example'' task_a, politeness_delay = 2,
      domain_queues = [(''a.example'', [task_ax])],
      domain_last_access = [''a.example'' \<mapsto> 100], processed_urls = {}\<rparr>"







section \<open>Query strings: \<open>parse_qs\<close> and \<open>urlencode\<close>\<close>

definition hexdig :: string where
  "hexdig = ''0123456789ABCDEFabcdef''"

definition hex_value :: "char \<Rightarrow> nat" where
  "hex_value c =
     (if c \<in> set digits then of_char c - 48
      else if c \<in> set ''ABCDEF'' then of_char c - 55
      else of_char c - 87)"

text \<open>\<open>unquote_to_bytes\<close>: a \<open>%\<close> followed by two hexadecimal digits is the byte they
  denote; any other \<open>%\<close> stays.\<close>

fun unquote_to_bytes :: "string \<Rightarrow> string" where
  "unquote_to_bytes [] = []"
| "unquote_to_bytes (c # cs) =
     (if c = CHR ''%''
      then (case cs of
              h1 # h2 # rest \<Rightarrow>
                if h1 \<in> set hexdig \<and> h2 \<in> set hexdig
                then char_of (16 * hex_value h1 + hex_value h2) # unquote_to_bytes rest
                else c # unquote_to_bytes cs
            | _ \<Rightarrow> c # unquote_to_bytes cs)
      else c # unquote_to_bytes cs)"

text \<open>
  \<open>bytes.decode('utf-8', 'replace')\<close>, with the result written in UTF-8 again: a
  well-formed sequence is kept, and each maximal ill-formed part (a byte that cannot
  start a sequence, or a start byte with the continuation bytes that may follow it) is
  replaced by U+FFFD, which is \<open>EF BF BD\<close>.
\<close>

definition replacement_character :: string where
  "replacement_character = [CHR 0xEF, CHR 0xBF, CHR 0xBD]"

definition is_continuation :: "char \<Rightarrow> bool" where
  "is_continuation c = (0x80 \<le> (of_char c :: nat) \<and> (of_char c :: nat) \<le> 0xBF)"

text \<open>The second byte after the start byte \<open>n\<close> of a sequence of three or four bytes:
  a continuation byte that gives no overlong form, no surrogate and no code point beyond
  U+10FFFF.\<close>

definition second_byte_ok :: "nat \<Rightarrow> char \<Rightarrow> bool" where
  "second_byte_ok n c2 =
     (is_continuation c2 \<and>
      (if n < 0xF0
       then \<not> (if (of_char c2 :: nat) < 0xA0 then n = 0xE0 else n = 0xED)
       else \<not> (if (of_char c2 :: nat) < 0x90 then n = 0xF0 else n = 0xF4)))"

fun utf8_replace :: "string \<Rightarrow> string" where
  "utf8_replace [] = []"
| "utf8_replace (c # cs) =
     (if (of_char c :: nat) < 0x80 then c # utf8_replace cs
      else if (of_char c :: nat) < 0xC2 \<or> 0xF5 \<le> (of_char c :: nat)
      then replacement_character @ utf8_replace cs
      else if (of_char c :: nat) < 0xE0
      then (case cs of
              [] \<Rightarrow> replacement_character
            | c2 # r2 \<Rightarrow>
                if is_continuation c2 then c # c2 # utf8_replace r2
                else replacement_character @ utf8_replace cs)
      else (case cs of
              [] \<Rightarrow> replacement_character
            | c2 # r2 \<Rightarrow>
                if \<not> second_byte_ok (of_char c) c2
                then replacement_character @ utf8_replace cs
                else (case r2 of
                        [] \<Rightarrow> replacement_character
                      | c3 # r3 \<Rightarrow>
                          if \<not> is_continuation c3
                          then replacement_character @ utf8_replace r2
                          else if (of_char c :: nat) < 0xF0
                          then c # c2 # c3 # utf8_replace r3
                          else (case r3 of
                                  [] \<Rightarrow> replacement_character
                                | c4 # r4 \<Rightarrow>
                                    if is_continuation c4
                                    then c # c2 # c3 # c4 # utf8_replace r4
                                    else replacement_character @ utf8_replace r3))))"

definition unquote :: "string \<Rightarrow> string" where
  "unquote s = (if CHR ''%'' \<notin> set s then s else utf8_replace (unquote_to_bytes s))"

definition unquote_plus :: "string \<Rightarrow> string" where
  "unquote_plus s = unquote (map (\<lambda>c. if c = CHR ''+'' then CHR '' '' else c) s)"

text \<open>\<open>parse_qsl(qs)\<close> with the defaults (\<open>keep_blank_values=False\<close>, separator
  \<open>&\<close>): a field without a value is dropped.\<close>

definition parse_qsl :: "string \<Rightarrow> (string \<times> string) list" where
  "parse_qsl qs =
     (if qs = [] then []
      else concat (map (\<lambda>name_value.
             if name_value \<noteq> []
             then (case partition_at CHR ''='' name_value of
                     (name, has_eq, val) \<Rightarrow>
                       if val \<noteq> [] then [(unquote_plus name, unquote_plus val)] else [])
             else [])
           (split_on CHR ''&'' qs)))"

text \<open>\<open>parse_qs\<close> collects the values of a name in a dictionary, in the order in
  which the names first occur.\<close>

fun parsed_result_add :: "(string \<times> string list) list \<Rightarrow> string \<times> string
    \<Rightarrow> (string \<times> string list) list" where
  "parsed_result_add [] (name, val) = [(name, [val])]"
| "parsed_result_add ((k, vs) # rest) (name, val) =
     (if k = name then (k, vs @ [val]) # rest
      else (k, vs) # parsed_result_add rest (name, val))"

definition parse_qs :: "string \<Rightarrow> (string \<times> string list) list" where
  "parse_qs qs = foldl parsed_result_add [] (parse_qsl qs)"

definition always_safe :: string where
  "always_safe = ascii_uppercase @ ascii_lowercase @ digits @ ''_.-~''"

definition upper_hexdig :: string where
  "upper_hexdig = ''0123456789ABCDEF''"

text \<open>\<open>quote_plus(s)\<close> with \<open>safe=''\<close>: a space becomes \<open>+\<close>, every other byte outside
  the always-safe characters becomes \<open>%XX\<close>.\<close>

definition quote_plus :: "string \<Rightarrow> string" where
  "quote_plus s =
     concat (map (\<lambda>c.
        if c \<in> set always_safe then [c]
        else if c = CHR '' '' then ''+''
        else [CHR ''%'', upper_hexdig ! ((of_char c :: nat) div 16),
              upper_hexdig ! ((of_char c :: nat) mod 16)]) s)"

text \<open>\<open>urlencode(query, doseq=True)\<close> on a list of pairs of a name and its list of
  values.\<close>

definition urlencode :: "(string \<times> string list) list \<Rightarrow> string" where
  "urlencode items =
     join ''&'' (concat (map (\<lambda>(k, v). map (\<lambda>elt. quote_plus k @ ''='' @ quote_plus elt) v)
                         items))"

section \<open>The parsed page (\<open>src/crawler/parser.py\<close>)\<close>

text \<open>The fields of the dataclass \<open>ParsedContent\<close>, prefixed with \<open>pc_\<close> (the fields of
  all records of a theory share one name space). \<open>schema_org_data\<close> and \<open>headings\<close> are
  dictionaries with string keys; a JSON object is kept as its text.\<close>

record ParsedContent =
  pc_url :: string
  pc_title :: "string option"
  pc_content :: "string option"
  pc_meta_description :: "string option"
  pc_meta_keywords :: "string option"
  pc_links :: "string list"
  pc_images :: "string list"
  pc_language :: "string option"
  pc_author :: "string option"
  pc_canonical_url :: "string option"
  pc_schema_org_data :: "(string \<times> string list) list"
  pc_headings :: "(string \<times> string list) list"
  pc_word_count :: int

text \<open>\<open>ParsedContent(url=url)\<close>, with the defaults of \<open>__post_init__\<close>.\<close>

definition ParsedContent_init :: "string \<Rightarrow> ParsedContent" where
  "ParsedContent_init u =
     \<lparr>pc_url = u, pc_title = None, pc_content = None, pc_meta_description = None,
      pc_meta_keywords = None, pc_links = [], pc_images = [], pc_language = None,
      pc_author = None, pc_canonical_url = None, pc_schema_org_data = [],
      pc_headings = [(''h1'', []), (''h2'', []), (''h3'', []), (''h4'', []), (''h5'', []),
                     (''h6'', [])],
      pc_word_count = 0\<rparr>"

text \<open>\<open>x or ""\<close> for an optional string.\<close>

definition or_empty :: "string option \<Rightarrow> string" where
  "or_empty x = (case x of None \<Rightarrow> [] | Some s \<Rightarrow> s)"

section \<open>The duplicate detector (\<open>src/storage/duplicate_detector.py\<close>)\<close>

text \<open>\<open>str.split()\<close> without argument splits at runs of white space and drops empty
  words. The ASCII characters that \<open>str.isspace\<close> accepts are the codes 9 to 13, 28 to 31
  and 32.\<close>

definition is_space :: "char \<Rightarrow> bool" where
  "is_space c = (let n = (of_char c :: nat) in (9 \<le> n \<and> n \<le> 13) \<or> (28 \<le> n \<and> n \<le> 32))"

fun split_words :: "string \<Rightarrow> string \<Rightarrow> string list" where
  "split_words cur [] = (if cur = [] then [] else [cur])"
| "split_words cur (c # cs) =
     (if is_space c then (if cur = [] then split_words [] cs else cur # split_words [] cs)
      else split_words (cur @ [c]) cs)"

definition split :: "string \<Rightarrow> string list" where
  "split s = split_words [] s"

text \<open>
  The digests of \<open>hashlib\<close> are not part of the repository and are parameters of the
  model: \<open>sha256_hexdigest\<close> and \<open>md5_hexdigest\<close> map a text to the hexadecimal digest
  of its UTF-8 encoding, and \<open>md5_json_hexdigest\<close> maps the feature vector of the fuzzy
  hash to the MD5 digest of \<open>json.dumps(features, sort_keys=True)\<close>.
\<close>

record fuzzy_features =
  word_count_bucket :: int
  char_count_bucket :: int
  title_words :: int
  significant_words :: int
  top_words :: "string list"

record hashlib =
  sha256_hexdigest :: "string \<Rightarrow> string"
  md5_hexdigest :: "string \<Rightarrow> string"
  md5_json_hexdigest :: "fuzzy_features \<Rightarrow> string"

definition hash_content :: "hashlib \<Rightarrow> string \<Rightarrow> string" where
  "hash_content H content =
     (if content = [] then [] else sha256_hexdigest H (join '' '' (split (lower content))))"

definition hash_title :: "hashlib \<Rightarrow> string \<Rightarrow> string" where
  "hash_title H title =
     (if title = [] then [] else md5_hexdigest H (join '' '' (split (lower title))))"

definition stop_words :: "string list" where
  "stop_words =
     [''the'', ''a'', ''an'', ''and'', ''or'', ''but'', ''in'', ''on'', ''at'', ''to'', ''for'',
      ''of'', ''with'', ''by'', ''from'', ''up'', ''about'', ''into'', ''through'', ''during'',
      ''before'', ''after'', ''above'', ''below'', ''is'', ''are'', ''was'', ''were'', ''be'',
      ''been'', ''being'', ''have'', ''has'', ''had'', ''do'', ''does'', ''did'', ''will'',
      ''would'', ''could'', ''should'', ''may'', ''might'', ''must'', ''can'', ''this'',
      ''that'', ''these'', ''those'', ''i'', ''you'', ''he'', ''she'', ''it'', ''we'', ''they'']"

text \<open>\<open>word_freq[word] = word_freq.get(word, 0) + 1\<close> on a dictionary in insertion
  order.\<close>

fun count_word :: "(string \<times> int) list \<Rightarrow> string \<Rightarrow> (string \<times> int) list" where
  "count_word [] w = [(w, 1)]"
| "count_word ((k, n) # rest) w =
     (if k = w then (k, n + 1) # rest else (k, n) # count_word rest w)"

definition create_fuzzy_hash :: "hashlib \<Rightarrow> string \<Rightarrow> string \<Rightarrow> string" where
  "create_fuzzy_hash H content title =
     (if content = [] then []
      else
        let words = split (lower content);
            word_count = int (length words);
            char_count = int (length content);
            significant = filter (\<lambda>w. length w > 3 \<and> w \<notin> set stop_words) words;
            word_freq = foldl count_word [] significant;
            top = map fst (take 10 (sort_reverse snd word_freq))
        in md5_json_hexdigest H
             \<lparr>word_count_bucket = word_count div 100,
              char_count_bucket = char_count div 1000,
              title_words = (if title \<noteq> [] then int (length (split title)) else 0),
              significant_words = int (length significant),
              top_words = top\<rparr>)"

record dd_stats =
  total_checks :: int
  url_duplicates :: int
  content_duplicates :: int
  title_duplicates :: int
  fuzzy_duplicates :: int

record DuplicateDetector =
  dd_redis_client :: redis
  url_hashes :: "string set"
  content_hashes :: "string set"
  title_hashes :: "string set"
  fuzzy_hashes :: "string set"
  stats :: dd_stats

definition url_hashes_key :: string where
  "url_hashes_key = ''crawler:duplicates:urls''"

definition content_hashes_key :: string where
  "content_hashes_key = ''crawler:duplicates:content''"

definition title_hashes_key :: string where
  "title_hashes_key = ''crawler:duplicates:titles''"

definition fuzzy_hashes_key :: string where
  "fuzzy_hashes_key = ''crawler:duplicates:fuzzy''"

definition DuplicateDetector_init :: "redis \<Rightarrow> DuplicateDetector" where
  "DuplicateDetector_init r =
     \<lparr>dd_redis_client = r, url_hashes = {}, content_hashes = {}, title_hashes = {},
      fuzzy_hashes = {},
      stats = \<lparr>total_checks = 0, url_duplicates = 0, content_duplicates = 0,
               title_duplicates = 0, fuzzy_duplicates = 0\<rparr>\<rparr>"

record duplicate_results =
  url_duplicate :: bool
  content_duplicate :: bool
  title_duplicate :: bool
  fuzzy_duplicate :: bool

definition tracking_params :: "string list" where
  "tracking_params =
     [''utm_source'', ''utm_medium'', ''utm_campaign'', ''utm_term'', ''utm_content'',
      ''fbclid'', ''gclid'', ''ref'', ''source'', ''campaign'']"

text \<open>\<open>sorted(filtered_params.items())\<close>: the names of a dictionary are distinct, so
  the pairs are ordered by name.\<close>

definition filtered_sorted_query :: "string \<Rightarrow> (string \<times> string list) list" where
  "filtered_sorted_query q =
     sort_key fst (filter (\<lambda>(k, v). k \<notin> set tracking_params) (parse_qs q))"

definition new_query_of :: "string \<Rightarrow> string" where
  "new_query_of q = (if q \<noteq> [] then urlencode (filtered_sorted_query q) else [])"

definition normalize_path :: "string \<Rightarrow> string" where
  "normalize_path p = (if length p > 1 \<and> last p = CHR ''/'' then butlast p else p)"

definition normalize_url :: "string \<Rightarrow> string" where
  "normalize_url u =
     (case urlparse (lower u) of
        Inl _ \<Rightarrow> lower u
      | Inr parsed \<Rightarrow>
          urlunparse \<lparr>scheme = scheme parsed, netloc = netloc parsed,
                      path = normalize_path (path parsed), params = params parsed,
                      query = new_query_of (query parsed), fragment = []\<rparr>)"





text \<open>The four hashes that \<open>check_duplicate\<close> and \<open>add_content\<close> both compute.\<close>

definition url_hash_of :: "hashlib \<Rightarrow> ParsedContent \<Rightarrow> string" where
  "url_hash_of H p = hash_content H (normalize_url (pc_url p))"

definition content_hash_of :: "hashlib \<Rightarrow> ParsedContent \<Rightarrow> string" where
  "content_hash_of H p = hash_content H (or_empty (pc_content p))"

definition title_hash_of :: "hashlib \<Rightarrow> ParsedContent \<Rightarrow> string" where
  "title_hash_of H p = hash_title H (or_empty (pc_title p))"

definition fuzzy_hash_of :: "hashlib \<Rightarrow> ParsedContent \<Rightarrow> string" where
  "fuzzy_hash_of H p = create_fuzzy_hash H (or_empty (pc_content p)) (or_empty (pc_title p))"

definition check_duplicate :: "hashlib \<Rightarrow> DuplicateDetector \<Rightarrow> ParsedContent
    \<Rightarrow> duplicate_results \<times> DuplicateDetector" where
  "check_duplicate H d p =
     (let url_hash = url_hash_of H p;
          content_hash = content_hash_of H p;
          title_hash = title_hash_of H p;
          fuzzy_hash = fuzzy_hash_of H p;
          results =
            \<lparr>url_duplicate = (url_hash \<in> url_hashes d),
             content_duplicate =
               (if content_hash \<noteq> [] then content_hash \<in> content_hashes d else False),
             title_duplicate =
               (if title_hash \<noteq> [] then title_hash \<in> title_hashes d else False),
             fuzzy_duplicate =
               (if fuzzy_hash \<noteq> [] then fuzzy_hash \<in> fuzzy_hashes d else False)\<rparr>;
          st = stats d;
          st1 = st\<lparr>total_checks := total_checks st + 1\<rparr>;
          st2 = (if url_duplicate results
                 then st1\<lparr>url_duplicates := url_duplicates st1 + 1\<rparr> else st1);
          st3 = (if content_duplicate results
                 then st2\<lparr>content_duplicates := content_duplicates st2 + 1\<rparr> else st2);
          st4 = (if title_duplicate results
                 then st3\<lparr>title_duplicates := title_duplicates st3 + 1\<rparr> else st3);
          st5 = (if fuzzy_duplicate results
                 then st4\<lparr>fuzzy_duplicates := fuzzy_duplicates st4 + 1\<rparr> else st4)
      in (results, d\<lparr>stats := st5\<rparr>))"

text \<open>The \<open>sadd\<close> calls of \<open>add_content\<close>, in their order, one flag for each; the
  first one that raises ends the \<open>try\<close> block (a missing flag counts as success).\<close>

fun sadd_all :: "redis \<Rightarrow> bool list \<Rightarrow> (string \<times> string) list \<Rightarrow> redis" where
  "sadd_all r oks [] = r"
| "sadd_all r oks ((key, v) # calls) =
     (if (case oks of [] \<Rightarrow> True | ok # _ \<Rightarrow> ok)
      then sadd_all (sadd r key v) (drop 1 oks) calls
      else r)"

definition add_content :: "hashlib \<Rightarrow> DuplicateDetector \<Rightarrow> bool list \<Rightarrow> ParsedContent
    \<Rightarrow> DuplicateDetector" where
  "add_content H d oks p =
     (let url_hash = url_hash_of H p;
          content_hash = content_hash_of H p;
          title_hash = title_hash_of H p;
          fuzzy_hash = fuzzy_hash_of H p;
          d1 = d\<lparr>url_hashes := insert url_hash (url_hashes d)\<rparr>;
          d2 = (if content_hash \<noteq> []
                then d1\<lparr>content_hashes := insert content_hash (content_hashes d1)\<rparr> else d1);
          d3 = (if title_hash \<noteq> []
                then d2\<lparr>title_hashes := insert title_hash (title_hashes d2)\<rparr> else d2);
          d4 = (if fuzzy_hash \<noteq> []
                then d3\<lparr>fuzzy_hashes := insert fuzzy_hash (fuzzy_hashes d3)\<rparr> else d3)
      in d4\<lparr>dd_redis_client :=
               sadd_all (dd_redis_client d4) oks
                 ([(url_hashes_key, url_hash)]
                  @ (if content_hash \<noteq> [] then [(content_hashes_key, content_hash)] else [])
                  @ (if title_hash \<noteq> [] then [(title_hashes_key, title_hash)] else [])
                  @ (if fuzzy_hash \<noteq> [] then [(fuzzy_hashes_key, fuzzy_hash)] else []))\<rparr>)"

text \<open>
  \<open>_hash_content\<close> and \<open>_hash_title\<close> encode the normalized text as UTF-8 before
  they hash it, which raises UnicodeEncodeError on a lone surrogate; the digests above
  are for the texts that can be encoded. (\<open>json.dumps\<close> escapes a surrogate, so the
  fuzzy hash does not raise.) \<open>check_duplicate\<close> computes the hashes after it has
  counted the check.
\<close>

definition hash_raises :: "string \<Rightarrow> bool" where
  "hash_raises text =
     (text \<noteq> [] \<and> \<not> utf8_encodable (join '' '' (split (lower text))))"

definition check_duplicate_raises :: "ParsedContent \<Rightarrow> bool" where
  "check_duplicate_raises p =
     (hash_raises (normalize_url (pc_url p)) \<or> hash_raises (or_empty (pc_content p))
      \<or> hash_raises (or_empty (pc_title p)))"

definition count_check :: "DuplicateDetector \<Rightarrow> DuplicateDetector" where
  "count_check d = d\<lparr>stats := (stats d)\<lparr>total_checks := total_checks (stats d) + 1\<rparr>\<rparr>"

definition is_duplicate :: "duplicate_results \<Rightarrow> bool \<Rightarrow> bool" where
  "is_duplicate r strict =
     (if strict then url_duplicate r \<or> content_duplicate r
      else url_duplicate r \<or> content_duplicate r \<or> fuzzy_duplicate r)"

text \<open>Stand-ins for the digests, to evaluate the detector on examples; like the
  digests, they are never empty.\<close>

definition hashlib0 :: hashlib where
  "hashlib0 =
     \<lparr>sha256_hexdigest = (\<lambda>s. ''sha256:'' @ s),
      md5_hexdigest = (\<lambda>s. ''md5:'' @ s),
      md5_json_hexdigest = (\<lambda>f. ''md5:'' @ concat (top_words f))\<rparr>"

definition page_empty :: ParsedContent where
  "page_empty = ParsedContent_init ''https://a.example/''"

definition page_hello :: ParsedContent where
  "page_hello = (ParsedContent_init ''https://a.example/'')
     \<lparr>pc_title := Some ''Hello'', pc_content := Some ''hello world''\<rparr>"





section \<open>The fetcher (\<open>src/crawler/fetcher.py\<close>)\<close>

text \<open>The fields of the dataclass \<open>FetchResult\<close>, prefixed with \<open>fr_\<close>.\<close>

record FetchResult =
  fr_url :: string
  fr_status_code :: int
  fr_content :: "string option"
  fr_headers :: "(string \<times> string) list option"
  fr_error :: "string option"
  fr_fetch_time :: real
  fr_content_type :: "string option"
  fr_encoding :: "string option"

text \<open>
  What the network answers to a request: an exception of the HTTP client, or a
  response. A response has a status, headers, the charset that aiohttp reads off the
  content type, and a body that arrives in chunks; the iteration over the chunks ends
  with the list, or raises at a \<open>StreamError\<close>.
\<close>

datatype http_exception = TimeoutError | ClientError string | OtherException string

datatype stream_item = Chunk string | StreamError

record response =
  resp_status :: int
  resp_headers :: "(string \<times> string) list"
  resp_charset :: "string option"
  resp_body :: "stream_item list"

text \<open>\<open>response.headers.get(name)\<close>: the headers are a case-insensitive multi-dictionary,
  and \<open>get\<close> returns the first value of the name.\<close>

definition headers_get :: "(string \<times> string) list \<Rightarrow> string \<Rightarrow> string option" where
  "headers_get hs name = map_of (map (\<lambda>(k, v). (lower k, v)) hs) (lower name)"

text \<open>\<open>dict(response.headers)\<close>: one entry per name as it is spelled, at the place of
  its first occurrence, with its last value.\<close>

fun dict_set :: "(string \<times> string) list \<Rightarrow> string \<Rightarrow> string \<Rightarrow> (string \<times> string) list" where
  "dict_set [] k v = [(k, v)]"
| "dict_set ((k', v') # rest) k v =
     (if k' = k then (k', v) # rest else (k', v') # dict_set rest k v)"

definition dict_of :: "(string \<times> string) list \<Rightarrow> (string \<times> string) list" where
  "dict_of hs = foldl (\<lambda>d (k, v). dict_set d k v) [] hs"

text \<open>\<open>sub in s\<close> on strings.\<close>

fun contains :: "string \<Rightarrow> string \<Rightarrow> bool" where
  "contains [] sub = (sub = [])"
| "contains (c # cs) sub = (take (length sub) (c # cs) = sub \<or> contains cs sub)"

definition text_types :: "string list" where
  "text_types = [''text/html'', ''text/plain'', ''text/xml'', ''application/xml'',
     ''application/xhtml+xml'', ''application/json'', ''application/ld+json'']"

definition is_text_content :: "string \<Rightarrow> bool" where
  "is_text_content content_type = (\<exists>text_type \<in> set text_types. contains content_type text_type)"

text \<open>
  \<open>int(s)\<close> on an ASCII string: white space (the codes 9 to 13 and 32) around an
  optional sign and decimal digits, single underscores allowed between two digits.
  \<open>None\<close> stands for the ValueError, which CPython 3.11 also raises when there are more
  than 4300 digits.
\<close>

definition int_space :: "char \<Rightarrow> bool" where
  "int_space c = ((9 \<le> (of_char c :: nat) \<and> (of_char c :: nat) \<le> 13) \<or> c = CHR '' '')"

fun digits_underscores_ok :: "string \<Rightarrow> bool" where
  "digits_underscores_ok [] = False"
| "digits_underscores_ok [c] = (c \<in> set digits)"
| "digits_underscores_ok (c # d # cs) =
     (c \<in> set digits
      \<and> (if d = CHR ''_'' then digits_underscores_ok cs else digits_underscores_ok (d # cs)))"

definition py_int :: "string \<Rightarrow> int option" where
  "py_int s =
     (let s1 = rev (dropWhile int_space (rev (dropWhile int_space s)));
          negative = (take 1 s1 = ''-'');
          s2 = (if take 1 s1 = ''-'' \<or> take 1 s1 = ''+'' then drop 1 s1 else s1);
          ds = filter (\<lambda>c. c \<noteq> CHR ''_'') s2
      in if digits_underscores_ok s2 \<and> length ds \<le> 4300
         then Some (if negative then - int (decimal_value ds) else int (decimal_value ds))
         else None)"

text \<open>
  The codecs are not part of the repository and are parameters: \<open>decode enc bs\<close> is
  \<open>bs.decode(enc)\<close>, which returns the text or raises UnicodeDecodeError, or
  LookupError for an unknown encoding; \<open>decode_ignore bs\<close> is \<open>bs.decode\<close> for UTF-8
  with the errors ignored. The text of some encodings (\<open>unicode_escape\<close>, \<open>utf-7\<close>) may
  hold a lone surrogate.
\<close>

record codecs =
  decode :: "string \<Rightarrow> string \<Rightarrow> py_error + string"
  decode_ignore :: "string \<Rightarrow> string"

text \<open>The body is read chunk by chunk; \<open>None\<close> when the bytes read so far exceed
  \<open>max_size\<close>, or when reading raises.\<close>

fun read_chunks :: "nat \<Rightarrow> string \<Rightarrow> stream_item list \<Rightarrow> string option" where
  "read_chunks max_size content_bytes [] = Some content_bytes"
| "read_chunks max_size content_bytes (StreamError # rest) = None"
| "read_chunks max_size content_bytes (Chunk chunk # rest) =
     (if length (content_bytes @ chunk) > max_size then None
      else read_chunks max_size (content_bytes @ chunk) rest)"

text \<open>The fallback encodings after a UnicodeDecodeError; any other exception leaves
  the function through its outer handler, which returns \<open>None\<close>.\<close>

fun decode_fallback :: "codecs \<Rightarrow> string list \<Rightarrow> string \<Rightarrow> string option" where
  "decode_fallback C [] content_bytes = Some (decode_ignore C content_bytes)"
| "decode_fallback C (enc # encs) content_bytes =
     (case decode C enc content_bytes of
        Inr text \<Rightarrow> Some text
      | Inl UnicodeDecodeError \<Rightarrow> decode_fallback C encs content_bytes
      | Inl _ \<Rightarrow> None)"

definition decode_content :: "codecs \<Rightarrow> string option \<Rightarrow> string \<Rightarrow> string option" where
  "decode_content C charset content_bytes =
     (let encoding = (case charset of None \<Rightarrow> ''utf-8''
                      | Some e \<Rightarrow> if e = [] then ''utf-8'' else e)
      in case decode C encoding content_bytes of
           Inr text \<Rightarrow> Some text
         | Inl UnicodeDecodeError \<Rightarrow>
             decode_fallback C [''utf-8'', ''latin-1'', ''cp1252''] content_bytes
         | Inl _ \<Rightarrow> None)"

definition default_max_size :: nat where
  "default_max_size = 10 * 1024 * 1024"

text \<open>The check of the declared length: \<open>Inl\<close> when \<open>int\<close> raises, else whether the
  declared length exceeds \<open>max_size\<close> (a missing or empty header does not).\<close>

definition declared_too_large :: "response \<Rightarrow> nat \<Rightarrow> py_error + bool" where
  "declared_too_large resp max_size =
     (case headers_get (resp_headers resp) ''content-length'' of
        None \<Rightarrow> Inr False
      | Some content_length \<Rightarrow>
          if content_length = [] then Inr False
          else (case py_int content_length of
                  None \<Rightarrow> Inl ValueError
                | Some n \<Rightarrow> Inr (n > int max_size)))"

definition read_content_safely :: "codecs \<Rightarrow> response \<Rightarrow> nat \<Rightarrow> string option" where
  "read_content_safely C resp max_size =
     (case declared_too_large resp max_size of
        Inl _ \<Rightarrow> None
      | Inr True \<Rightarrow> None
      | Inr False \<Rightarrow>
          (case read_chunks max_size [] (resp_body resp) of
             None \<Rightarrow> None
           | Some content_bytes \<Rightarrow> decode_content C (resp_charset resp) content_bytes))"

text \<open>
  \<open>RobotFileParser\<close> of \<open>urllib.robotparser\<close> is not part of the repository. Its
  objects are values of a type \<open>'rp\<close>; \<open>new_parser origin\<close> is the object that
  \<open>RobotFileParser()\<close> and \<open>set_url\<close> with the robots URL of the origin make, and
  \<open>parser_can_fetch rp useragent url\<close> is \<open>rp.can_fetch(useragent, url)\<close>.
\<close>

record 'rp robotparser =
  new_parser :: "string \<Rightarrow> 'rp"
  parser_can_fetch :: "'rp \<Rightarrow> string \<Rightarrow> string \<Rightarrow> bool"

text \<open>
  \<open>rp.read_robots_txt(text)\<close>: the class \<open>RobotFileParser\<close> defines \<open>mtime\<close>,
  \<open>modified\<close>, \<open>set_url\<close>, \<open>read\<close>, \<open>parse\<close>, \<open>can_fetch\<close>, \<open>crawl_delay\<close>,
  \<open>request_rate\<close> and \<open>site_maps\<close>, and no \<open>read_robots_txt\<close>; looking the attribute
  up raises AttributeError.
\<close>

definition read_robots_txt :: "'rp \<Rightarrow> string \<Rightarrow> py_error + 'rp" where
  "read_robots_txt rp robots_content = Inl AttributeError"

record 'rp RobotsChecker =
  rc_user_agent :: string
  robots_cache :: "string \<rightharpoonup> 'rp"
  robots_check_time :: "string \<rightharpoonup> real"
  cache_ttl :: real

definition RobotsChecker_init :: "string \<Rightarrow> 'rp RobotsChecker" where
  "RobotsChecker_init ua =
     \<lparr>rc_user_agent = ua, robots_cache = Map.empty, robots_check_time = Map.empty,
      cache_ttl = 3600\<rparr>"

text \<open>\<open>RobotsChecker._get_domain\<close>: the origin \<open>scheme://netloc\<close>; \<open>urlparse\<close> may
  raise.\<close>

definition origin_of :: "string \<Rightarrow> py_error + string" where
  "origin_of u =
     (case urlparse u of
        Inl e \<Rightarrow> Inl e
      | Inr parsed \<Rightarrow> Inr (scheme parsed @ ''://'' @ netloc parsed))"

text \<open>
  The part of \<open>can_fetch\<close> that fetches \<open>/robots.txt\<close>: \<open>robots_reply\<close> is what the
  request gives, an exception or the status and the text of the response. The parser is
  stored in the cache only if \<open>read_robots_txt\<close> returns; an exception is answered with
  \<open>True\<close>.
\<close>

definition fetch_robots :: "'rp robotparser \<Rightarrow> 'rp RobotsChecker \<Rightarrow> real
    \<Rightarrow> http_exception + int \<times> string \<Rightarrow> string \<Rightarrow> string \<Rightarrow> bool \<times> 'rp RobotsChecker" where
  "fetch_robots R c current_time robots_reply u domain =
     (case robots_reply of
        Inl _ \<Rightarrow> (True, c)
      | Inr (status, robots_content) \<Rightarrow>
          (case read_robots_txt (new_parser R domain)
                  (if status = 200 then robots_content else []) of
             Inl _ \<Rightarrow> (True, c)
           | Inr rp \<Rightarrow>
               (parser_can_fetch R rp (rc_user_agent c) u,
                c\<lparr>robots_cache := (robots_cache c)(domain \<mapsto> rp),
                  robots_check_time := (robots_check_time c)(domain \<mapsto> current_time)\<rparr>)))"

text \<open>\<open>can_fetch\<close>: \<open>current_time\<close> is what \<open>time.time()\<close> returns.\<close>

definition can_fetch :: "'rp robotparser \<Rightarrow> 'rp RobotsChecker \<Rightarrow> real
    \<Rightarrow> http_exception + int \<times> string \<Rightarrow> string \<Rightarrow> bool \<times> 'rp RobotsChecker" where
  "can_fetch R c current_time robots_reply u =
     (case origin_of u of
        Inl _ \<Rightarrow> (True, c)
      | Inr domain \<Rightarrow>
          (case (robots_cache c domain, robots_check_time c domain) of
             (Some rp, Some checked) \<Rightarrow>
               if current_time - checked < cache_ttl c
               then (parser_can_fetch R rp (rc_user_agent c) u, c)
               else fetch_robots R c current_time robots_reply u domain
           | _ \<Rightarrow> fetch_robots R c current_time robots_reply u domain))"

record fetcher_stats =
  total_requests :: int
  successful_requests :: int
  failed_requests :: int
  robots_blocked :: int
  total_bytes_downloaded :: int

record 'rp WebFetcher =
  user_agent :: string
  respect_robots_txt :: bool
  robots_checker :: "'rp RobotsChecker option"
  fetcher_stats :: fetcher_stats

definition WebFetcher_init :: "string \<Rightarrow> bool \<Rightarrow> 'rp WebFetcher" where
  "WebFetcher_init ua respect =
     \<lparr>user_agent = ua, respect_robots_txt = respect,
      robots_checker = (if respect then Some (RobotsChecker_init ua) else None),
      fetcher_stats = \<lparr>total_requests = 0, successful_requests = 0, failed_requests = 0,
                        robots_blocked = 0, total_bytes_downloaded = 0\<rparr>\<rparr>"

text \<open>
  What a call of \<open>fetch\<close> meets: the time at the robots check, the replies to the
  request for \<open>/robots.txt\<close> (if one is made) and to the request for the page, and the
  time that the call measures as \<open>fetch_time\<close>.
\<close>

record fetch_env =
  env_time :: real
  robots_reply :: "http_exception + int \<times> string"
  page_reply :: "http_exception + response"
  env_fetch_time :: real

definition FetchResult_init :: "string \<Rightarrow> int \<Rightarrow> FetchResult" where
  "FetchResult_init u status =
     \<lparr>fr_url = u, fr_status_code = status, fr_content = None, fr_headers = None,
      fr_error = None, fr_fetch_time = 0, fr_content_type = None, fr_encoding = None\<rparr>"

text \<open>\<open>if x:\<close> on an optional string.\<close>

definition truthy :: "string option \<Rightarrow> bool" where
  "truthy x = (case x of None \<Rightarrow> False | Some s \<Rightarrow> s \<noteq> [])"

text \<open>The request for the page and the reading of the response, the \<open>try\<close> block of
  \<open>fetch\<close>. (\<open>len(content)\<close> counts the characters of the text; the model counts the
  bytes of its UTF-8 form, the same number for ASCII.)\<close>

definition fetch_page :: "codecs \<Rightarrow> 'rp WebFetcher \<Rightarrow> fetch_env \<Rightarrow> string
    \<Rightarrow> FetchResult \<times> 'rp WebFetcher" where
  "fetch_page C f env u =
     (let st = fetcher_stats f;
          st1 = st\<lparr>total_requests := total_requests st + 1\<rparr>
      in case page_reply env of
           Inl exc \<Rightarrow>
             ((FetchResult_init u 0)
                \<lparr>fr_error := Some (case exc of
                     TimeoutError \<Rightarrow> ''Request timeout''
                   | ClientError e \<Rightarrow> ''Client error: '' @ e
                   | OtherException e \<Rightarrow> ''Unexpected error: '' @ e),
                 fr_fetch_time := env_fetch_time env\<rparr>,
              f\<lparr>fetcher_stats := st1\<lparr>failed_requests := failed_requests st1 + 1\<rparr>\<rparr>)
         | Inr resp \<Rightarrow>
             (let headers = dict_of (resp_headers resp);
                  content_type =
                    lower (case headers_get (resp_headers resp) ''content-type'' of
                             None \<Rightarrow> [] | Some v \<Rightarrow> v)
              in if \<not> is_text_content content_type
                 then ((FetchResult_init u (resp_status resp))
                         \<lparr>fr_headers := Some headers, fr_content_type := Some content_type,
                          fr_error := Some ''Non-text content type'',
                          fr_fetch_time := env_fetch_time env\<rparr>,
                       f\<lparr>fetcher_stats := st1\<rparr>)
                 else
                   (let content = read_content_safely C resp default_max_size;
                        st2 = (if truthy content
                               then st1\<lparr>total_bytes_downloaded :=
                                          total_bytes_downloaded st1
                                          + int (length (or_empty content)),
                                        successful_requests := successful_requests st1 + 1\<rparr>
                               else st1)
                    in ((FetchResult_init u (resp_status resp))
                          \<lparr>fr_content := content, fr_headers := Some headers,
                           fr_content_type := Some content_type,
                           fr_encoding := resp_charset resp,
                           fr_fetch_time := env_fetch_time env\<rparr>,
                        f\<lparr>fetcher_stats := st2\<rparr>))))"

definition fetch :: "'rp robotparser \<Rightarrow> codecs \<Rightarrow> 'rp WebFetcher \<Rightarrow> fetch_env \<Rightarrow> string
    \<Rightarrow> FetchResult \<times> 'rp WebFetcher" where
  "fetch R C f env u =
     (case (if respect_robots_txt f then robots_checker f else None) of
        None \<Rightarrow> fetch_page C f env u
      | Some checker \<Rightarrow>
          (case can_fetch R checker (env_time env) (robots_reply env) u of
             (allowed, checker') \<Rightarrow>
               (let f1 = f\<lparr>robots_checker := Some checker'\<rparr>
                in if \<not> allowed
                   then ((FetchResult_init u 403)
                           \<lparr>fr_error := Some ''Blocked by robots.txt'',
                            fr_fetch_time := env_fetch_time env\<rparr>,
                         f1\<lparr>fetcher_stats :=
                              (fetcher_stats f1)
                                \<lparr>robots_blocked := robots_blocked (fetcher_stats f1) + 1\<rparr>\<rparr>)
                   else fetch_page C f1 env u)))"

text \<open>The bytes that a stream item delivers, and the two size conditions in the spec's
  words: the declared length exceeds the limit, the bytes read so far exceed it at some
  chunk.\<close>

definition chunk_bytes :: "stream_item \<Rightarrow> string" where
  "chunk_bytes item = (case item of Chunk chunk \<Rightarrow> chunk | StreamError \<Rightarrow> [])"

definition cumulative_size :: "stream_item list \<Rightarrow> nat \<Rightarrow> nat" where
  "cumulative_size body k = length (concat (map chunk_bytes (take k body)))"

definition declared_length_within :: "response \<Rightarrow> nat \<Rightarrow> bool" where
  "declared_length_within resp limit =
     (case headers_get (resp_headers resp) ''content-length'' of
        None \<Rightarrow> True
      | Some v \<Rightarrow> v = [] \<or> (\<exists>n. py_int v = Some n \<and> n \<le> int limit))"

section \<open>The scheduler (\<open>src/crawler/scheduler.py\<close>)\<close>

record CrawlStats =
  start_time :: real
  urls_crawled :: int
  pages_stored :: int
  errors :: int
  duplicates_skipped :: int
  cs_total_bytes_downloaded :: int
  average_response_time :: real
  urls_in_queue :: int

text \<open>The scheduler with its components; \<open>max_depth\<close> and \<open>retry_attempts\<close> come from
  the configuration.\<close>

record 'rp CrawlerScheduler =
  url_frontier :: URLFrontier
  fetcher :: "'rp WebFetcher"
  duplicate_detector :: DuplicateDetector
  crawl_stats :: CrawlStats
  max_depth :: int
  retry_attempts :: int

text \<open>
  The libraries that the scheduler's components call, as parameters. \<open>lib_parse\<close> is
  \<open>ContentParser.parse\<close>, which is built on BeautifulSoup and returns a
  \<open>ParsedContent\<close> for every input (it catches every exception).
\<close>

record 'rp libraries =
  lib_robotparser :: "'rp robotparser"
  lib_codecs :: codecs
  lib_hashlib :: hashlib
  lib_parse :: "string \<Rightarrow> string \<Rightarrow> ParsedContent"

text \<open>
  What one call of \<open>_process_url\<close> meets: the environment of the fetch, the result of
  \<open>database.store_content\<close> (a boolean, or the exception of a database that is not
  initialized), whether the Redis calls of \<open>mark_processed\<close> and \<open>mark_failed\<close>, of
  \<open>add_urls\<close> and of \<open>add_content\<close> succeed, and the time at which the task of the
  \<open>i\<close>-th link is created.
\<close>

record process_env =
  pe_fetch :: fetch_env
  pe_store :: "py_error + bool"
  pe_mark_ok :: bool
  pe_add_oks :: "bool list"
  pe_dd_oks :: "bool list"
  pe_link_time :: "nat \<Rightarrow> real"

definition link_tasks :: "process_env \<Rightarrow> ParsedContent \<Rightarrow> int \<Rightarrow> URLTask list" where
  "link_tasks env parsed_content d =
     map (\<lambda>(i, link). \<lparr>url = link, depth = d, priority = NORMAL,
                         parent_url = Some (pc_url parsed_content),
                         discovered_time = pe_link_time env i, retry_count = 0\<rparr>)
       (enumerate 0 (pc_links parsed_content))"

definition queue_new_urls :: "URLFrontier \<Rightarrow> int \<Rightarrow> process_env \<Rightarrow> ParsedContent \<Rightarrow> int
    \<Rightarrow> URLFrontier" where
  "queue_new_urls fr maxd env parsed_content d =
     (if d > maxd then fr
      else if link_tasks env parsed_content d = [] then fr
      else snd (add_urls fr (pe_add_oks env) (link_tasks env parsed_content d)))"

text \<open>\<open>if fetch_result.error or not fetch_result.content\<close>.\<close>

definition fetch_failed :: "FetchResult \<Rightarrow> bool" where
  "fetch_failed r = (truthy (fr_error r) \<or> \<not> truthy (fr_content r))"

text \<open>The places where \<open>_process_url\<close> calls \<open>mark_failed\<close> and counts an error:
  after a failed fetch, and in the handler of an exception.\<close>

definition fail_task :: "'rp CrawlerScheduler \<Rightarrow> process_env \<Rightarrow> URLTask \<Rightarrow> 'rp CrawlerScheduler" where
  "fail_task st env task =
     st\<lparr>url_frontier :=
          snd (snd (mark_failed (url_frontier st) (pe_mark_ok env) task (retry_attempts st))),
        crawl_stats := (crawl_stats st)\<lparr>errors := errors (crawl_stats st) + 1\<rparr>\<rparr>"

text \<open>
  \<open>_process_url\<close>. The body runs in a \<open>try\<close> whose handler calls \<open>mark_failed\<close>;
  the statements that can raise are the division by \<open>urls_crawled\<close>,
  \<open>fetch_result.content.encode('utf-8')\<close>, the hashing in \<open>check_duplicate\<close> (after
  it has counted the check) and \<open>database.store_content\<close>. \<open>ContentParser.parse\<close>
  returns a \<open>ParsedContent\<close> whose \<open>url\<close> is the URL it was given.
\<close>

definition process_url :: "'rp libraries \<Rightarrow> 'rp CrawlerScheduler \<Rightarrow> process_env \<Rightarrow> URLTask
    \<Rightarrow> 'rp CrawlerScheduler" where
  "process_url L st env task =
     (case fetch (lib_robotparser L) (lib_codecs L) (fetcher st) (pe_fetch env) (url task) of
        (fetch_result, fetcher') \<Rightarrow>
          (let cs = crawl_stats st;
               cs1 = cs\<lparr>urls_crawled := urls_crawled cs + 1\<rparr>;
               st1 = st\<lparr>fetcher := fetcher', crawl_stats := cs1\<rparr>
           in if urls_crawled cs1 = 0 then fail_task st1 env task
              else
                (let cs2 = cs1\<lparr>average_response_time :=
                                 (average_response_time cs1 * real_of_int (urls_crawled cs1 - 1)
                                  + fr_fetch_time fetch_result)
                                 / real_of_int (urls_crawled cs1)\<rparr>;
                     st2 = st1\<lparr>crawl_stats := cs2\<rparr>
                 in if fetch_failed fetch_result then fail_task st2 env task
                    else
                      (let content = or_empty (fr_content fetch_result)
                       in if \<not> utf8_encodable content then fail_task st2 env task
                          else
                      (let st3 = st2\<lparr>crawl_stats := cs2\<lparr>cs_total_bytes_downloaded :=
                                     cs_total_bytes_downloaded cs2 + int (length content)\<rparr>\<rparr>;
                           parsed_content = (lib_parse L (url task) content)\<lparr>pc_url := url task\<rparr>
                       in if check_duplicate_raises parsed_content
                          then fail_task
                                 (st3\<lparr>duplicate_detector := count_check (duplicate_detector st3)\<rparr>)
                                 env task
                          else
                          case check_duplicate (lib_hashlib L) (duplicate_detector st3)
                                 parsed_content of
                            (duplicate_check, detector') \<Rightarrow>
                              (let st4 = st3\<lparr>duplicate_detector := detector'\<rparr>
                               in if is_duplicate duplicate_check False
                                  then st4\<lparr>crawl_stats := (crawl_stats st4)
                                             \<lparr>duplicates_skipped :=
                                                duplicates_skipped (crawl_stats st4) + 1\<rparr>,
                                           url_frontier :=
                                             mark_processed (url_frontier st4) (pe_mark_ok env)
                                               (url task)\<rparr>
                                  else
                                    (case pe_store env of
                                       Inl _ \<Rightarrow> fail_task st4 env task
                                     | Inr stored \<Rightarrow>
                                         (let st5 =
                                                (if stored
                                                 then st4\<lparr>crawl_stats := (crawl_stats st4)
                                                            \<lparr>pages_stored :=
                                                               pages_stored (crawl_stats st4) + 1\<rparr>,
                                                          duplicate_detector :=
                                                            add_content (lib_hashlib L)
                                                              (duplicate_detector st4)
                                                              (pe_dd_oks env) parsed_content\<rparr>
                                                 else st4\<lparr>crawl_stats := (crawl_stats st4)
                                                            \<lparr>errors := errors (crawl_stats st4) + 1\<rparr>\<rparr>);
                                              st6 = st5\<lparr>url_frontier :=
                                                         queue_new_urls (url_frontier st5)
                                                           (max_depth st5) env parsed_content
                                                           (depth task + 1)\<rparr>
                                          in st6\<lparr>url_frontier :=
                                                   mark_processed (url_frontier st6)
                                                     (pe_mark_ok env) (url task)\<rparr>))))))))"

text \<open>The result of the fetch and the parsed page of a call, and whether a statement of
  the \<open>try\<close> body raises: the division, the encoding of the content, a hash, or the
  store (which is reached when the page is not a duplicate).\<close>

definition fetch_result_of :: "'rp libraries \<Rightarrow> 'rp CrawlerScheduler \<Rightarrow> process_env \<Rightarrow> URLTask
    \<Rightarrow> FetchResult" where
  "fetch_result_of L st env task =
     fst (fetch (lib_robotparser L) (lib_codecs L) (fetcher st) (pe_fetch env) (url task))"

definition parsed_content_of :: "'rp libraries \<Rightarrow> 'rp CrawlerScheduler \<Rightarrow> process_env
    \<Rightarrow> URLTask \<Rightarrow> ParsedContent" where
  "parsed_content_of L st env task =
     (lib_parse L (url task) (or_empty (fr_content (fetch_result_of L st env task))))
       \<lparr>pc_url := url task\<rparr>"

definition process_url_raises :: "'rp libraries \<Rightarrow> 'rp CrawlerScheduler \<Rightarrow> process_env
    \<Rightarrow> URLTask \<Rightarrow> bool" where
  "process_url_raises L st env task =
     (urls_crawled (crawl_stats st) + 1 = 0
      \<or> (\<not> fetch_failed (fetch_result_of L st env task)
          \<and> (\<not> utf8_encodable (or_empty (fr_content (fetch_result_of L st env task)))
               \<or> check_duplicate_raises (parsed_content_of L st env task)
               \<or> (\<not> is_duplicate
                        (fst (check_duplicate (lib_hashlib L) (duplicate_detector st)
                                (parsed_content_of L st env task))) False
                   \<and> isl (pe_store env)))))"

subsection \<open>Example libraries, responses and states\<close>

text \<open>A robots parser that allows nothing, codecs that take the bytes as the text, and
  a page parser that finds a title and the text, for the evaluation of examples.\<close>

definition robotparser0 :: "unit robotparser" where
  "robotparser0 = \<lparr>new_parser = (\<lambda>_. ()), parser_can_fetch = (\<lambda>_ _ _. False)\<rparr>"

definition codecs0 :: codecs where
  "codecs0 = \<lparr>decode = (\<lambda>enc bs. Inr bs), decode_ignore = (\<lambda>bs. bs)\<rparr>"

definition libraries0 :: "unit libraries" where
  "libraries0 =
     \<lparr>lib_robotparser = robotparser0, lib_codecs = codecs0, lib_hashlib = hashlib0,
      lib_parse = (\<lambda>u html. (ParsedContent_init u)\<lparr>pc_title := Some ''t'',
                                                    pc_content := Some html\<rparr>)\<rparr>"

definition robots_txt_b :: string where
  "robots_txt_b = ''User-agent: *'' @ [CHR 0x0A] @ ''Disallow: /private'' @ [CHR 0x0A]"

definition response_secret :: response where
  "response_secret =
     \<lparr>resp_status = 200, resp_headers = [(''Content-Type'', ''text/html''), (''Content-Length'', ''6'')],
      resp_charset = None, resp_body = [Chunk ''sec'', Chunk ''ret'']\<rparr>"

definition response_404_empty :: response where
  "response_404_empty =
     \<lparr>resp_status = 404, resp_headers = [(''Content-Type'', ''text/html'')],
      resp_charset = None, resp_body = []\<rparr>"

definition response_404_page :: response where
  "response_404_page =
     \<lparr>resp_status = 404, resp_headers = [(''Content-Type'', ''text/html'')],
      resp_charset = None, resp_body = [Chunk ''not found'']\<rparr>"

text \<open>A page whose declared charset is \<open>unicode_escape\<close> and whose body is the escape
  of the surrogate \<open>D800\<close> (a backslash, then \<open>ud800\<close>), with codecs that decode it to
  the lone surrogate.\<close>

definition response_surrogate :: response where
  "response_surrogate =
     \<lparr>resp_status = 200, resp_headers = [(''Content-Type'', ''text/html'')],
      resp_charset = Some ''unicode_escape'', resp_body = [Chunk (CHR 0x5C # ''ud800'')]\<rparr>"

definition codecs_escape :: codecs where
  "codecs_escape =
     \<lparr>decode = (\<lambda>enc bs. if enc = ''unicode_escape'' \<and> bs = CHR 0x5C # ''ud800''
                          then Inr [CHR 0xED, CHR 0xA0, CHR 0x80] else Inr bs),
      decode_ignore = (\<lambda>bs. bs)\<rparr>"

definition libraries_escape :: "unit libraries" where
  "libraries_escape = libraries0\<lparr>lib_codecs := codecs_escape\<rparr>"

definition fetch_env_of :: "response \<Rightarrow> fetch_env" where
  "fetch_env_of resp =
     \<lparr>env_time = 100, robots_reply = Inr (200, robots_txt_b), page_reply = Inr resp,
      env_fetch_time = 1 / 2\<rparr>"

definition process_env_of :: "response \<Rightarrow> process_env" where
  "process_env_of resp =
     \<lparr>pe_fetch = fetch_env_of resp, pe_store = Inr True, pe_mark_ok = True, pe_add_oks = [],
      pe_dd_oks = [], pe_link_time = (\<lambda>_. 100)\<rparr>"

text \<open>A scheduler that has just handed out \<open>task_a\<close>: the frontier is empty, nothing is
  processed, three retries are configured.\<close>

definition scheduler0 :: "unit CrawlerScheduler" where
  "scheduler0 =
     \<lparr>url_frontier = URLFrontier_init redis0 1,
      fetcher = WebFetcher_init ''crawler'' True,
      duplicate_detector = DuplicateDetector_init redis0,
      crawl_stats = \<lparr>start_time = 0, urls_crawled = 0, pages_stored = 0, errors = 0,
                     duplicates_skipped = 0, cs_total_bytes_downloaded = 0,
                     average_response_time = 0, urls_in_queue = 0\<rparr>,
      max_depth = 3, retry_attempts = 3\<rparr>"


section \<open>Properties of the URL frontier\<close>

lemma get_domain_a: "get_domain ''https://a.example/'' = ''a.example''"
  by code_simp


lemma get_domain_b: "get_domain ''https://b.example/private'' = ''b.example''"
  by code_simp

lemma frontier_a_nothing_ready: "sorted_available frontier_a 91 = []"
  by (simp add: sorted_available_def sort_reverse_def frontier_a_def time_since_access_def)

text \<open>
  C10. Whenever \<open>get_next_url\<close> returns \<open>None\<close>, the frontier is left exactly as it
  was: the queues, the last-access map, the processed set and the Redis server (no
  \<open>lrem\<close> is issued).
\<close>

theorem get_next_url_None_unchanged:
  "fst (get_next_url s now ok) = None \<Longrightarrow> snd (get_next_url s now ok) = s"
  by (auto simp: get_next_url_def Let_def split: list.splits option.splits prod.splits)

theorem get_next_url_None_unchanged_witness:
  "fst (get_next_url frontier_a 91 True) = None
   \<and> snd (get_next_url frontier_a 91 True) = frontier_a"
proof -
  have h: "fst (get_next_url frontier_a 91 True) = None"
    by (simp add: get_next_url_def frontier_a_nothing_ready)
  show ?thesis using h get_next_url_None_unchanged [OF h] by simp
qed

lemma add_url_processed:
  "url task \<in> processed_urls s \<Longrightarrow> add_url s ok task = (False, s)"
  by (simp add: add_url_def)

lemma add_url_after_mark_processed:
  "url task = u \<Longrightarrow> fst (add_url (mark_processed s ok u) ok' task) = False"
  by (simp add: add_url_def mark_processed_def Let_def)

lemma add_url_not_processed:
  "url task \<notin> processed_urls s \<Longrightarrow>
   fst (add_url s ok task) = ok
   \<and> domain_queues (snd (add_url s ok task))
       = queue_append (domain_queues s) (get_domain (url task)) task
   \<and> redis_client (snd (add_url s ok task))
       = (if ok then rpush (redis_client s) (domain_queue_prefix @ get_domain (url task)) task
          else redis_client s)"
  by (simp add: add_url_def Let_def)

text \<open>
  C3. \<open>add_url\<close> on a URL that is not processed, with the \<open>rpush\<close> raising: the task
  is appended to the in-memory queue of its host, and the call returns \<open>False\<close>, where
  the same call returns \<open>True\<close> when Redis answers.
\<close>

theorem add_url_redis_failure_returns_False:
  "fst (add_url (URLFrontier_init redis0 1) False task_a) = False
   \<and> domain_queues (snd (add_url (URLFrontier_init redis0 1) False task_a))
       = [(''a.example'', [task_a])]
   \<and> fst (add_url (URLFrontier_init redis0 1) True task_a) = True"
  by (simp add: add_url_def URLFrontier_init_def Let_def task_a_def get_domain_a)

lemma queue_of_queue_append:
  "queue_of (queue_append dq d t) d = queue_of dq d @ [t]"
  by (induction dq d t rule: queue_append.induct) (auto simp: queue_of_def)

text \<open>
  \<open>mark_failed\<close> by cases: with \<open>retry_count < max_retries\<close> it returns \<open>True\<close> and
  the state that \<open>add_url\<close> of the updated task returns, whatever \<open>add_url\<close> answers;
  the task is appended to the queue of its host when its URL is not processed.
\<close>

lemma mark_failed_result:
  "(retry_count task < max_retries \<longrightarrow>
      (case mark_failed s ok task max_retries of
         (retried, task', s') \<Rightarrow>
           retried
           \<and> task' = task\<lparr>retry_count := retry_count task + 1, priority := LOW\<rparr>
           \<and> s' = snd (add_url s ok task')
           \<and> processed_urls s' = processed_urls s
           \<and> (url task \<notin> processed_urls s \<longrightarrow>
                queue_of (domain_queues s') (get_domain (url task))
                  = queue_of (domain_queues s) (get_domain (url task)) @ [task'])))
   \<and> (\<not> retry_count task < max_retries \<longrightarrow>
      (case mark_failed s ok task max_retries of
         (retried, task', s') \<Rightarrow>
           \<not> retried \<and> task' = task \<and> url task \<in> processed_urls s'
           \<and> domain_queues s' = domain_queues s))"
  by (auto simp: mark_failed_def add_url_def mark_processed_def Let_def queue_of_queue_append)


lemma set_sort_reverse: "set (sort_reverse key xs) = set xs"
  by (simp add: sort_reverse_def)


lemma served_domain_in_available:
  assumes "served_domain s now = Some h"
  shows "\<exists>t a. (h, t, a) \<in> set (available_domains s now (domain_queues s))"
proof -
  from assms obtain t a rest where "sorted_available s now = (h, t, a) # rest"
    by (auto simp: served_domain_def split: list.splits option.splits)
  then have "(h, t, a) \<in> set (sorted_available s now)" by simp
  then show ?thesis by (auto simp: sorted_available_def set_sort_reverse)
qed


lemma get_next_url_unserved:
  "served_domain s now = None \<Longrightarrow> get_next_url s now ok = (None, s)"
  unfolding served_domain_def get_next_url_def
  by (simp add: Let_def split: list.splits option.splits prod.splits)

lemma get_next_url_served_eq:
  "served_domain s now = Some h \<Longrightarrow>
   \<exists>best_task best_index.
     find_best None 0 (queue_of (domain_queues s) h) = Some (best_task, best_index)
     \<and> get_next_url s now ok =
         (Some best_task,
          s\<lparr>domain_queues :=
               queue_update (domain_queues s) h
                 (take best_index (queue_of (domain_queues s) h)
                  @ drop (best_index + 1) (queue_of (domain_queues s) h)),
            domain_last_access := (domain_last_access s)(h \<mapsto> now),
            redis_client :=
              (if ok then lrem1 (redis_client s) (domain_queue_prefix @ h) best_task
               else redis_client s)\<rparr>)"
  unfolding served_domain_def get_next_url_def
  by (auto simp add: Let_def split: list.splits option.splits prod.splits)

lemma get_next_url_served:
  "served_domain s now = Some h \<Longrightarrow>
   fst (get_next_url s now ok) \<noteq> None
   \<and> domain_last_access (snd (get_next_url s now ok)) = (domain_last_access s)(h \<mapsto> now)"
  using get_next_url_served_eq [of s now h ok] by auto

lemma get_next_url_returns_iff_served:
  "fst (get_next_url s now ok) \<noteq> None \<longleftrightarrow> served_domain s now \<noteq> None"
proof (cases "served_domain s now")
  case None
  then show ?thesis by (simp add: get_next_url_unserved)
next
  case (Some h)
  then show ?thesis using get_next_url_served [of s now h ok] by simp
qed












lemma example_priorities:
  "priority task_a = HIGH" "priority task_ax = HIGH" "priority task_b = NORMAL"
  by (simp_all add: task_a_def task_ax_def task_b_def)

lemma frontier_a_served: "served_domain frontier_a 100 = Some ''a.example''"
  by (simp add: served_domain_def sorted_available_def sort_reverse_def frontier_a_def
        time_since_access_def queue_of_def)

lemma frontier_a_next:
  "get_next_url frontier_a 100 True = (Some task_a, frontier_a1)"
  by (simp add: get_next_url_def sorted_available_def sort_reverse_def frontier_a_def
        frontier_a1_def time_since_access_def queue_of_def domain_queue_prefix_def
        example_priorities)

lemma frontier_a1_too_early: "served_domain frontier_a1 101 = None"
  by (simp add: served_domain_def sorted_available_def sort_reverse_def frontier_a1_def
        time_since_access_def queue_of_def)

lemma frontier_a1_served: "served_domain frontier_a1 103 = Some ''a.example''"
  by (simp add: served_domain_def sorted_available_def sort_reverse_def frontier_a1_def
        time_since_access_def queue_of_def)

lemma max_by_max:
  "max_by k b xs \<in> set (b # xs) \<and> (\<forall>y \<in> set (b # xs). k y \<le> k (max_by k b xs))"
proof (induction xs arbitrary: b)
  case Nil
  then show ?case by simp
next
  case (Cons x xs)
  show ?case
  proof (cases "k x > k b")
    case True
    with Cons [of x] show ?thesis by auto
  next
    case False
    with Cons [of b] show ?thesis by auto
  qed
qed

lemma available_domains_iff:
  "(d, t, a) \<in> set (available_domains s now dq) \<longleftrightarrow>
   (\<exists>x xs. (d, x # xs) \<in> set dq \<and> politeness_delay s \<le> time_since_access s now d
      \<and> t = max_by (\<lambda>t. priority_value (priority t)) x xs
      \<and> a = time_since_access s now d)"
proof (induction dq)
  case Nil
  then show ?case by simp
next
  case (Cons p dq)
  obtain d' q where p: "p = (d', q)" by (cases p)
  show ?case
  proof (cases q)
    case Nil
    with Cons p show ?thesis by auto
  next
    case (Cons t' ts)
    show ?thesis
    proof (cases "politeness_delay s \<le> time_since_access s now d'")
      case True
      with Cons.IH p Cons show ?thesis by auto
    next
      case False
      with Cons.IH p Cons show ?thesis by auto
    qed
  qed
qed

lemma sort_reverse_head_max:
  assumes "sort_reverse k xs = y # ys" and "x \<in> set xs"
  shows "k x \<le> k y"
proof -
  from assms(1) have "sort_key k (rev xs) = rev ys @ [y]"
    by (metis rev.simps(2) rev_rev_ident sort_reverse_def)
  moreover have "sorted (map k (sort_key k (rev xs)))" by simp
  ultimately have "sorted (map k (rev ys) @ [k y])" by simp
  then have "\<forall>z \<in> set (rev ys). k z \<le> k y" by (simp add: sorted_append)
  moreover from assms have "x \<in> set (y # ys)" by (metis set_sort_reverse)
  ultimately show ?thesis by auto
qed

lemma find_best_Some:
  "find_best (Some (b, i)) j ts = Some (b', i') \<Longrightarrow>
   (b' = b \<and> i' = i \<and> (\<forall>x \<in> set ts. priority_value (priority x) \<le> priority_value (priority b)))
   \<or> (\<exists>pre post. ts = pre @ b' # post \<and> i' = j + length pre
        \<and> (\<forall>x \<in> set pre. priority_value (priority x) < priority_value (priority b'))
        \<and> priority_value (priority b) < priority_value (priority b')
        \<and> (\<forall>x \<in> set post. priority_value (priority x) \<le> priority_value (priority b')))"
proof (induction ts arbitrary: b i j)
  case Nil
  then show ?case by simp
next
  case (Cons t ts)
  show ?case
  proof (cases "priority_value (priority t) > priority_value (priority b)")
    case True
    with Cons.prems have "find_best (Some (t, j)) (j + 1) ts = Some (b', i')" by simp
    from Cons.IH [OF this] show ?thesis
    proof
      assume "b' = t \<and> i' = j
        \<and> (\<forall>x \<in> set ts. priority_value (priority x) \<le> priority_value (priority t))"
      with True have "t # ts = [] @ b' # ts \<and> i' = j + length ([]::URLTask list)
        \<and> priority_value (priority b) < priority_value (priority b')
        \<and> (\<forall>x \<in> set ts. priority_value (priority x) \<le> priority_value (priority b'))"
        by simp
      then show ?thesis by (metis empty_iff list.set(1))
    next
      assume "\<exists>pre post. ts = pre @ b' # post \<and> i' = j + 1 + length pre
        \<and> (\<forall>x \<in> set pre. priority_value (priority x) < priority_value (priority b'))
        \<and> priority_value (priority t) < priority_value (priority b')
        \<and> (\<forall>x \<in> set post. priority_value (priority x) \<le> priority_value (priority b'))"
      then obtain pre post where pp: "ts = pre @ b' # post" "i' = j + 1 + length pre"
        "\<forall>x \<in> set pre. priority_value (priority x) < priority_value (priority b')"
        "priority_value (priority t) < priority_value (priority b')"
        "\<forall>x \<in> set post. priority_value (priority x) \<le> priority_value (priority b')"
        by blast
      with True have "t # ts = (t # pre) @ b' # post \<and> i' = j + length (t # pre)
        \<and> (\<forall>x \<in> set (t # pre). priority_value (priority x) < priority_value (priority b'))
        \<and> priority_value (priority b) < priority_value (priority b')
        \<and> (\<forall>x \<in> set post. priority_value (priority x) \<le> priority_value (priority b'))"
        by auto
      then show ?thesis by blast
    qed
  next
    case False
    with Cons.prems have "find_best (Some (b, i)) (j + 1) ts = Some (b', i')" by simp
    from Cons.IH [OF this] show ?thesis
    proof
      assume "b' = b \<and> i' = i
        \<and> (\<forall>x \<in> set ts. priority_value (priority x) \<le> priority_value (priority b))"
      with False show ?thesis by auto
    next
      assume "\<exists>pre post. ts = pre @ b' # post \<and> i' = j + 1 + length pre
        \<and> (\<forall>x \<in> set pre. priority_value (priority x) < priority_value (priority b'))
        \<and> priority_value (priority b) < priority_value (priority b')
        \<and> (\<forall>x \<in> set post. priority_value (priority x) \<le> priority_value (priority b'))"
      then obtain pre post where pp: "ts = pre @ b' # post" "i' = j + 1 + length pre"
        "\<forall>x \<in> set pre. priority_value (priority x) < priority_value (priority b')"
        "priority_value (priority b) < priority_value (priority b')"
        "\<forall>x \<in> set post. priority_value (priority x) \<le> priority_value (priority b')"
        by blast
      with False have "t # ts = (t # pre) @ b' # post \<and> i' = j + length (t # pre)
        \<and> (\<forall>x \<in> set (t # pre). priority_value (priority x) < priority_value (priority b'))
        \<and> priority_value (priority b) < priority_value (priority b')
        \<and> (\<forall>x \<in> set post. priority_value (priority x) \<le> priority_value (priority b'))"
        by auto
      then show ?thesis by blast
    qed
  qed
qed

lemma find_best_Some_total: "\<exists>r. find_best (Some p) j ts = Some r"
  by (induction ts arbitrary: p j) (auto split: prod.splits)

lemma find_best_first_max:
  assumes "find_best None 0 q = Some (b, i)"
  shows "\<exists>pre post. q = pre @ b # post \<and> i = length pre
     \<and> (\<forall>x \<in> set pre. priority_value (priority x) < priority_value (priority b))
     \<and> (\<forall>x \<in> set post. priority_value (priority x) \<le> priority_value (priority b))"
proof (cases q)
  case Nil
  with assms show ?thesis by simp
next
  case (Cons t ts)
  with assms have "find_best (Some (t, 0)) 1 ts = Some (b, i)" by simp
  from find_best_Some [OF this] show ?thesis
  proof
    assume "b = t \<and> i = 0
      \<and> (\<forall>x \<in> set ts. priority_value (priority x) \<le> priority_value (priority t))"
    with Cons have "q = [] @ b # ts \<and> i = length ([]::URLTask list)
      \<and> (\<forall>x \<in> set ts. priority_value (priority x) \<le> priority_value (priority b))"
      by simp
    then show ?thesis by (metis empty_iff list.set(1))
  next
    assume "\<exists>pre post. ts = pre @ b # post \<and> i = 1 + length pre
      \<and> (\<forall>x \<in> set pre. priority_value (priority x) < priority_value (priority b))
      \<and> priority_value (priority t) < priority_value (priority b)
      \<and> (\<forall>x \<in> set post. priority_value (priority x) \<le> priority_value (priority b))"
    then obtain pre post where "ts = pre @ b # post" "i = 1 + length pre"
      "\<forall>x \<in> set pre. priority_value (priority x) < priority_value (priority b)"
      "priority_value (priority t) < priority_value (priority b)"
      "\<forall>x \<in> set post. priority_value (priority x) \<le> priority_value (priority b)"
      by blast
    with Cons have "q = (t # pre) @ b # post \<and> i = length (t # pre)
      \<and> (\<forall>x \<in> set (t # pre). priority_value (priority x) < priority_value (priority b))
      \<and> (\<forall>x \<in> set post. priority_value (priority x) \<le> priority_value (priority b))"
      by auto
    then show ?thesis by blast
  qed
qed

lemma find_best_nonempty:
  assumes "q \<noteq> []"
  shows "\<exists>r. find_best None 0 q = Some r"
proof (cases q)
  case Nil
  with assms show ?thesis by simp
next
  case (Cons t ts)
  then show ?thesis using find_best_Some_total [of "(t, 0)" 1 ts] by simp
qed

lemma queue_of_distinct:
  "distinct (map fst dq) \<Longrightarrow> (h, q) \<in> set dq \<Longrightarrow> queue_of dq h = q"
  by (simp add: queue_of_def)

lemma queue_of_mem:
  "distinct (map fst dq) \<Longrightarrow> h \<in> fst ` set dq \<Longrightarrow> (h, queue_of dq h) \<in> set dq"
  by (auto simp: queue_of_def)

lemma queue_of_queue_update_same: "queue_of (queue_update dq h q') h = q'"
  by (induction dq h q' rule: queue_update.induct) (auto simp: queue_of_def)

lemma queue_of_queue_update_other:
  "d \<noteq> h \<Longrightarrow> queue_of (queue_update dq h q') d = queue_of dq d"
  by (induction dq h q' rule: queue_update.induct) (auto simp: queue_of_def)


lemma served_domain_head:
  "served_domain s now = Some h \<Longrightarrow> \<exists>t a rest. sorted_available s now = (h, t, a) # rest"
  by (auto simp: served_domain_def split: list.splits option.splits)

lemma ready_spec_iff_available:
  assumes "distinct (map fst (domain_queues s))"
  shows "ready_spec s now h \<longleftrightarrow>
    (\<exists>t a. (h, t, a) \<in> set (available_domains s now (domain_queues s)))"
proof
  assume r: "ready_spec s now h"
  then have "(h, queue_of (domain_queues s) h) \<in> set (domain_queues s)"
    using assms by (simp add: ready_spec_def queue_of_mem)
  moreover from r obtain x xs where "queue_of (domain_queues s) h = x # xs"
    by (cases "queue_of (domain_queues s) h") (auto simp: ready_spec_def)
  ultimately have "(h, x # xs) \<in> set (domain_queues s)" by simp
  moreover from r have "politeness_delay s \<le> time_since_access s now h"
    by (simp add: ready_spec_def time_since_access_def)
  ultimately show "\<exists>t a. (h, t, a) \<in> set (available_domains s now (domain_queues s))"
    unfolding available_domains_iff by blast
next
  assume "\<exists>t a. (h, t, a) \<in> set (available_domains s now (domain_queues s))"
  then obtain x xs where m: "(h, x # xs) \<in> set (domain_queues s)"
    and p: "politeness_delay s \<le> time_since_access s now h"
    unfolding available_domains_iff by blast
  from m assms have "queue_of (domain_queues s) h = x # xs" by (rule queue_of_distinct [rotated])
  moreover from m have "h \<in> fst ` set (domain_queues s)" by force
  ultimately show "ready_spec s now h"
    using p by (simp add: ready_spec_def time_since_access_def)
qed


lemma set_sorted_available:
  "set (sorted_available s now) = set (available_domains s now (domain_queues s))"
  by (simp add: sorted_available_def set_sort_reverse)

lemma get_next_url_None_iff_no_ready:
  assumes d: "distinct (map fst (domain_queues s))"
  shows "fst (get_next_url s now ok) = None \<longleftrightarrow> (\<forall>h. \<not> ready_spec s now h)"
proof
  assume n: "fst (get_next_url s now ok) = None"
  show "\<forall>h. \<not> ready_spec s now h"
  proof (rule ccontr)
    assume "\<not> (\<forall>h. \<not> ready_spec s now h)"
    then obtain h' where "ready_spec s now h'" by blast
    then obtain t' a' where "(h', t', a') \<in> set (available_domains s now (domain_queues s))"
      using ready_spec_iff_available [OF d, of now h'] by blast
    then have "(h', t', a') \<in> set (sorted_available s now)"
      by (simp add: set_sorted_available)
    then have "sorted_available s now \<noteq> []" by auto
    then obtain p rest where "sorted_available s now = p # rest"
      by (cases "sorted_available s now") auto
    then obtain h t a where sa: "sorted_available s now = (h, t, a) # rest"
      by (cases p) auto
    then have "(h, t, a) \<in> set (sorted_available s now)" by simp
    then have "(h, t, a) \<in> set (available_domains s now (domain_queues s))"
      by (simp add: set_sorted_available)
    then have "ready_spec s now h" using ready_spec_iff_available [OF d, of now h] by blast
    then have "queue_of (domain_queues s) h \<noteq> []" by (simp add: ready_spec_def)
    then obtain r where "find_best None 0 (queue_of (domain_queues s) h) = Some r"
      using find_best_nonempty by blast
    with sa have "served_domain s now = Some h" by (simp add: served_domain_def)
    with n show False using get_next_url_served [of s now h ok] by simp
  qed
next
  assume nr: "\<forall>h. \<not> ready_spec s now h"
  have "served_domain s now = None"
  proof (cases "served_domain s now")
    case None
    then show ?thesis .
  next
    case (Some h)
    then obtain t a where "(h, t, a) \<in> set (available_domains s now (domain_queues s))"
      using served_domain_in_available by blast
    with nr show ?thesis using ready_spec_iff_available [OF d, of now h] by blast
  qed
  then show "fst (get_next_url s now ok) = None" by (simp add: get_next_url_unserved)
qed

text \<open>
  C2. In a frontier whose queue dictionary has one entry per host: the hosts that
  \<open>get_next_url\<close> considers are exactly the ready ones (queue non-empty and time since
  the last access at least the politeness delay); it returns \<open>None\<close> exactly when no
  host is ready; and a returned task comes from a ready host \<open>h\<close>, has a priority value
  that no task of any ready host exceeds, with \<open>h\<close> idle at least as long as every ready
  host that holds a task of that priority value; it is the first task of that priority
  value in the queue of \<open>h\<close>, only this occurrence is removed, the other queues are
  unchanged, and the last access of \<open>h\<close> is set to the current time.
\<close>

theorem get_next_url_selects_best_ready_task:
  assumes d: "distinct (map fst (domain_queues s))"
  shows "(\<forall>h. ready_spec s now h \<longleftrightarrow>
            h \<in> fst ` set (available_domains s now (domain_queues s)))
    \<and> (fst (get_next_url s now ok) = None \<longleftrightarrow> (\<forall>h. \<not> ready_spec s now h))
    \<and> (\<forall>task s'. get_next_url s now ok = (Some task, s') \<longrightarrow>
         (\<exists>h pre post.
            ready_spec s now h
            \<and> queue_of (domain_queues s) h = pre @ task # post
            \<and> (\<forall>x \<in> set pre. priority_value (priority x) < priority_value (priority task))
            \<and> (\<forall>x \<in> set post. priority_value (priority x) \<le> priority_value (priority task))
            \<and> (\<forall>h' x. ready_spec s now h' \<and> x \<in> set (queue_of (domain_queues s) h')
                  \<longrightarrow> priority_value (priority x) \<le> priority_value (priority task))
            \<and> (\<forall>h'. ready_spec s now h'
                   \<and> (\<exists>x \<in> set (queue_of (domain_queues s) h').
                         priority_value (priority x) = priority_value (priority task))
                  \<longrightarrow> time_since_access s now h' \<le> time_since_access s now h)
            \<and> queue_of (domain_queues s') h = pre @ post
            \<and> (\<forall>h'. h' \<noteq> h \<longrightarrow>
                  queue_of (domain_queues s') h' = queue_of (domain_queues s) h')
            \<and> domain_last_access s' = (domain_last_access s)(h \<mapsto> now)))"
proof (intro conjI allI impI)
  fix h
  show "ready_spec s now h \<longleftrightarrow> h \<in> fst ` set (available_domains s now (domain_queues s))"
    using ready_spec_iff_available [OF d, of now h] by force
next
  show "fst (get_next_url s now ok) = None \<longleftrightarrow> (\<forall>h. \<not> ready_spec s now h)"
    by (rule get_next_url_None_iff_no_ready [OF d])
next
  fix task s'
  let ?pv = "\<lambda>t::URLTask. priority_value (priority t)"
  let ?dq = "domain_queues s"
  assume g: "get_next_url s now ok = (Some task, s')"
  then have "served_domain s now \<noteq> None"
    using get_next_url_returns_iff_served [of s now ok] by simp
  then obtain h where sd: "served_domain s now = Some h" by blast
  from get_next_url_served_eq [OF sd, of ok] g obtain best_index where
    fb: "find_best None 0 (queue_of ?dq h) = Some (task, best_index)"
    and s': "s' = s\<lparr>domain_queues :=
               queue_update ?dq h
                 (take best_index (queue_of ?dq h) @ drop (best_index + 1) (queue_of ?dq h)),
            domain_last_access := (domain_last_access s)(h \<mapsto> now),
            redis_client :=
              (if ok then lrem1 (redis_client s) (domain_queue_prefix @ h) task
               else redis_client s)\<rparr>"
    by auto
  from served_domain_head [OF sd] obtain t a rest where
    sa: "sorted_available s now = (h, t, a) # rest" by blast
  then have "(h, t, a) \<in> set (sorted_available s now)" by simp
  then have hm: "(h, t, a) \<in> set (available_domains s now ?dq)"
    by (simp add: set_sorted_available)
  then have rh: "ready_spec s now h" using ready_spec_iff_available [OF d, of now h] by blast
  from hm obtain x xs where hq: "(h, x # xs) \<in> set ?dq" and t: "t = max_by ?pv x xs"
    and a: "a = time_since_access s now h"
    unfolding available_domains_iff by blast
  from hq d have qh: "queue_of ?dq h = x # xs" by (rule queue_of_distinct [rotated])
  from find_best_first_max [OF fb] obtain pre post where
    split: "queue_of ?dq h = pre @ task # post" and bi: "best_index = length pre"
    and pre: "\<forall>x \<in> set pre. ?pv x < ?pv task" and post: "\<forall>x \<in> set post. ?pv x \<le> ?pv task"
    by blast
  have task_max: "\<forall>y \<in> set (queue_of ?dq h). ?pv y \<le> ?pv task"
    using split pre post by auto
  have "t \<in> set (queue_of ?dq h)" using max_by_max [of ?pv x xs] t qh by simp
  then have t_le: "?pv t \<le> ?pv task" using task_max by blast
  have "task \<in> set (x # xs)" using split qh by (metis in_set_conv_decomp)
  then have "?pv task \<le> ?pv t" using max_by_max [of ?pv x xs] t by blast
  with t_le have t_eq: "?pv t = ?pv task" by simp
  have others: "\<And>h'. ready_spec s now h' \<Longrightarrow>
      \<exists>t'::URLTask. (?pv t', time_since_access s now h') \<le> (?pv t, a)
          \<and> (\<forall>y \<in> set (queue_of ?dq h'). ?pv y \<le> ?pv t')"
  proof -
    fix h'
    assume "ready_spec s now h'"
    then obtain t' a' where m': "(h', t', a') \<in> set (available_domains s now ?dq)"
      using ready_spec_iff_available [OF d, of now h'] by blast
    then obtain x' xs' where hq': "(h', x' # xs') \<in> set ?dq" and t': "t' = max_by ?pv x' xs'"
      and a': "a' = time_since_access s now h'"
      unfolding available_domains_iff by blast
    from hq' d have qh': "queue_of ?dq h' = x' # xs'" by (rule queue_of_distinct [rotated])
    have "(?pv (fst (snd (h', t', a'))), snd (snd (h', t', a')))
        \<le> (?pv (fst (snd (h, t, a))), snd (snd (h, t, a)))"
      using sort_reverse_head_max [OF sa [unfolded sorted_available_def] m'] .
    then have f1: "(?pv t', time_since_access s now h') \<le> (?pv t, a)" using a' by simp
    have f2: "\<forall>y \<in> set (queue_of ?dq h'). ?pv y \<le> ?pv t'"
      using max_by_max [of ?pv x' xs'] t' qh' by simp
    from f1 f2 have "(?pv t', time_since_access s now h') \<le> (?pv t, a)
          \<and> (\<forall>y \<in> set (queue_of ?dq h'). ?pv y \<le> ?pv t')"
      by (rule conjI)
    then show "\<exists>t'::URLTask. (?pv t', time_since_access s now h') \<le> (?pv t, a)
          \<and> (\<forall>y \<in> set (queue_of ?dq h'). ?pv y \<le> ?pv t')"
      by (rule exI)
  qed
  have glob: "\<forall>h' x. ready_spec s now h' \<and> x \<in> set (queue_of ?dq h') \<longrightarrow> ?pv x \<le> ?pv task"
  proof (intro allI impI)
    fix h' y
    assume as: "ready_spec s now h' \<and> y \<in> set (queue_of ?dq h')"
    with others [of h'] obtain t' where le: "(?pv t', time_since_access s now h') \<le> (?pv t, a)"
      and mx: "\<forall>y \<in> set (queue_of ?dq h'). ?pv y \<le> ?pv t'" by blast
    from le have "?pv t' \<le> ?pv t" by (auto simp: less_eq_prod_def)
    with mx as t_eq show "?pv y \<le> ?pv task" by fastforce
  qed
  have tie: "\<forall>h'. ready_spec s now h' \<and> (\<exists>x \<in> set (queue_of ?dq h'). ?pv x = ?pv task)
      \<longrightarrow> time_since_access s now h' \<le> time_since_access s now h"
  proof (intro allI impI)
    fix h'
    assume as: "ready_spec s now h' \<and> (\<exists>x \<in> set (queue_of ?dq h'). ?pv x = ?pv task)"
    with others [of h'] obtain t' where le: "(?pv t', time_since_access s now h') \<le> (?pv t, a)"
      and mx: "\<forall>y \<in> set (queue_of ?dq h'). ?pv y \<le> ?pv t'" by blast
    from as mx have "?pv task \<le> ?pv t'" by force
    with le t_eq have "time_since_access s now h' \<le> a" by (auto simp: less_eq_prod_def)
    then show "time_since_access s now h' \<le> time_since_access s now h" using a by simp
  qed
  have rem: "take best_index (queue_of ?dq h) @ drop (best_index + 1) (queue_of ?dq h) = pre @ post"
    using split bi by simp
  have q': "queue_of (domain_queues s') h = pre @ post"
    using s' rem by (simp add: queue_of_queue_update_same)
  have qo: "\<forall>h'. h' \<noteq> h \<longrightarrow> queue_of (domain_queues s') h' = queue_of ?dq h'"
    using s' by (simp add: queue_of_queue_update_other)
  have la: "domain_last_access s' = (domain_last_access s)(h \<mapsto> now)"
    using s' by simp
  show "\<exists>h pre post.
            ready_spec s now h
            \<and> queue_of (domain_queues s) h = pre @ task # post
            \<and> (\<forall>x \<in> set pre. priority_value (priority x) < priority_value (priority task))
            \<and> (\<forall>x \<in> set post. priority_value (priority x) \<le> priority_value (priority task))
            \<and> (\<forall>h' x. ready_spec s now h' \<and> x \<in> set (queue_of (domain_queues s) h')
                  \<longrightarrow> priority_value (priority x) \<le> priority_value (priority task))
            \<and> (\<forall>h'. ready_spec s now h'
                   \<and> (\<exists>x \<in> set (queue_of (domain_queues s) h').
                         priority_value (priority x) = priority_value (priority task))
                  \<longrightarrow> time_since_access s now h' \<le> time_since_access s now h)
            \<and> queue_of (domain_queues s') h = pre @ post
            \<and> (\<forall>h'. h' \<noteq> h \<longrightarrow>
                  queue_of (domain_queues s') h' = queue_of (domain_queues s) h')
            \<and> domain_last_access s' = (domain_last_access s)(h \<mapsto> now)"
    using rh split pre post glob tie q' qo la by blast
qed


theorem get_next_url_selects_best_ready_task_witness:
  "distinct (map fst (domain_queues frontier_a))
   \<and> get_next_url frontier_a 100 True = (Some task_a, frontier_a1)
   \<and> (\<exists>h pre post.
         ready_spec frontier_a 100 h
         \<and> queue_of (domain_queues frontier_a) h = pre @ task_a # post
         \<and> (\<forall>x \<in> set pre. priority_value (priority x) < priority_value (priority task_a))
         \<and> queue_of (domain_queues frontier_a1) h = pre @ post
         \<and> domain_last_access frontier_a1 = (domain_last_access frontier_a)(h \<mapsto> 100))"
proof -
  have d: "distinct (map fst (domain_queues frontier_a))"
    by (simp add: frontier_a_def)
  have g: "get_next_url frontier_a 100 True = (Some task_a, frontier_a1)"
    by (rule frontier_a_next)
  note sel = get_next_url_selects_best_ready_task
    [OF d, of 100 True, THEN conjunct2, THEN conjunct2, rule_format, OF g]
  from sel obtain h pre post where
    "ready_spec frontier_a 100 h
     \<and> queue_of (domain_queues frontier_a) h = pre @ task_a # post
     \<and> (\<forall>x \<in> set pre. priority_value (priority x) < priority_value (priority task_a))
     \<and> (\<forall>x \<in> set post. priority_value (priority x) \<le> priority_value (priority task_a))
     \<and> (\<forall>h' x. ready_spec frontier_a 100 h' \<and> x \<in> set (queue_of (domain_queues frontier_a) h')
           \<longrightarrow> priority_value (priority x) \<le> priority_value (priority task_a))
     \<and> (\<forall>h'. ready_spec frontier_a 100 h'
            \<and> (\<exists>x \<in> set (queue_of (domain_queues frontier_a) h').
                  priority_value (priority x) = priority_value (priority task_a))
           \<longrightarrow> time_since_access frontier_a 100 h' \<le> time_since_access frontier_a 100 h)
     \<and> queue_of (domain_queues frontier_a1) h = pre @ post
     \<and> (\<forall>h'. h' \<noteq> h \<longrightarrow>
           queue_of (domain_queues frontier_a1) h' = queue_of (domain_queues frontier_a) h')
     \<and> domain_last_access frontier_a1 = (domain_last_access frontier_a)(h \<mapsto> 100)"
    by (elim exE)
  then have "ready_spec frontier_a 100 h
         \<and> queue_of (domain_queues frontier_a) h = pre @ task_a # post
         \<and> (\<forall>x \<in> set pre. priority_value (priority x) < priority_value (priority task_a))
         \<and> queue_of (domain_queues frontier_a1) h = pre @ post
         \<and> domain_last_access frontier_a1 = (domain_last_access frontier_a)(h \<mapsto> 100)"
    by simp
  then have "\<exists>h pre post.
         ready_spec frontier_a 100 h
         \<and> queue_of (domain_queues frontier_a) h = pre @ task_a # post
         \<and> (\<forall>x \<in> set pre. priority_value (priority x) < priority_value (priority task_a))
         \<and> queue_of (domain_queues frontier_a1) h = pre @ post
         \<and> domain_last_access frontier_a1 = (domain_last_access frontier_a)(h \<mapsto> 100)"
    by (intro exI)
  with d g show ?thesis by simp
qed


subsection \<open>The queue dictionary keeps one entry per host\<close>

lemma keys_queue_append:
  "fst ` set (queue_append dq d t) = insert d (fst ` set dq)"
  by (induction dq d t rule: queue_append.induct) auto

lemma distinct_queue_append:
  "distinct (map fst dq) \<Longrightarrow> distinct (map fst (queue_append dq d t))"
proof (induction dq d t rule: queue_append.induct)
  case (1 domain task)
  then show ?case by simp
next
  case (2 d q rest domain task)
  then show ?case using keys_queue_append [of rest domain task] by auto
qed

lemma keys_queue_update:
  "fst ` set (queue_update dq d q') = insert d (fst ` set dq)"
  by (induction dq d q' rule: queue_update.induct) auto

lemma distinct_queue_update:
  "distinct (map fst dq) \<Longrightarrow> distinct (map fst (queue_update dq d q'))"
proof (induction dq d q' rule: queue_update.induct)
  case (1 domain q')
  then show ?case by simp
next
  case (2 d q rest domain q')
  then show ?case using keys_queue_update [of rest domain q'] by auto
qed

lemma add_url_distinct:
  "distinct (map fst (domain_queues s)) \<Longrightarrow>
   distinct (map fst (domain_queues (snd (add_url s ok task))))"
  by (simp add: add_url_def Let_def distinct_queue_append)

lemma get_next_url_distinct:
  assumes "distinct (map fst (domain_queues s))"
  shows "distinct (map fst (domain_queues (snd (get_next_url s now ok))))"
proof (cases "served_domain s now")
  case None
  with assms show ?thesis by (simp add: get_next_url_unserved)
next
  case (Some h)
  from get_next_url_served_eq [OF Some, of ok] assms show ?thesis
    by (auto simp: distinct_queue_update)
qed

lemma step_distinct:
  assumes "distinct (map fst (domain_queues s))"
  shows "distinct (map fst (domain_queues (step s op)))"
proof (cases op)
  case (Add task ok)
  with assms show ?thesis by (simp add: add_url_distinct)
next
  case (Next t ok)
  with assms show ?thesis by (simp add: get_next_url_distinct)
next
  case (MarkProcessed u ok)
  with assms show ?thesis by (simp add: mark_processed_def Let_def)
next
  case (MarkFailed task m ok)
  with assms show ?thesis
    by (simp add: mark_failed_def Let_def add_url_distinct mark_processed_def)
next
  case (Cleanup ok)
  with assms show ?thesis by (simp add: cleanup_def Let_def distinct_map_filter)
qed

lemma run_distinct:
  "distinct (map fst (domain_queues s)) \<Longrightarrow> distinct (map fst (domain_queues (run s ops)))"
  by (induction ops arbitrary: s) (simp_all add: step_distinct)

lemma init_distinct: "distinct (map fst (domain_queues (run (URLFrontier_init r d) ops)))"
  by (rule run_distinct) (simp add: URLFrontier_init_def)

text \<open>\<open>add_url\<close> files a task under \<open>get_domain\<close> of its URL.\<close>

lemma add_url_files_under_domain:
  "url task \<notin> processed_urls s \<Longrightarrow>
   task \<in> set (queue_of (domain_queues (snd (add_url s ok task))) (get_domain (url task)))"
  by (simp add: add_url_def Let_def queue_of_queue_append)


subsection \<open>Politeness between the tasks of one network location\<close>




lemma set_queue_append:
  "(d, q) \<in> set (queue_append dq h t) \<Longrightarrow>
   (d, q) \<in> set dq \<or> (d = h \<and> (\<exists>q0. q = q0 @ [t] \<and> (q0 = [] \<or> (h, q0) \<in> set dq)))"
  by (induction dq h t rule: queue_append.induct) (auto split: if_splits)

lemma set_queue_update:
  "(d, q) \<in> set (queue_update dq h q') \<Longrightarrow> (d, q) \<in> set dq \<or> (d = h \<and> q = q')"
  by (induction dq h q' rule: queue_update.induct) (auto split: if_splits)

lemma add_url_filed:
  assumes "filed s"
  shows "filed (snd (add_url s ok task))"
proof (cases "url task \<in> processed_urls s")
  case True
  with assms show ?thesis by (simp add: add_url_def)
next
  case False
  let ?dq = "queue_append (domain_queues s) (get_domain (url task)) task"
  have dq: "domain_queues (snd (add_url s ok task)) = ?dq"
    using False by (simp add: add_url_def Let_def)
  have "distinct (map fst ?dq)"
    using assms by (simp add: filed_def distinct_queue_append)
  moreover have "\<forall>(d, q) \<in> set ?dq. \<forall>t \<in> set q. get_domain (url t) = d"
  proof (clarify)
    fix d q t
    assume m: "(d, q) \<in> set ?dq" and t: "t \<in> set q"
    from set_queue_append [OF m] show "get_domain (url t) = d"
    proof
      assume "(d, q) \<in> set (domain_queues s)"
      with assms t show ?thesis by (auto simp: filed_def)
    next
      assume "d = get_domain (url task)
        \<and> (\<exists>q0. q = q0 @ [task] \<and> (q0 = [] \<or> (get_domain (url task), q0) \<in> set (domain_queues s)))"
      then obtain q0 where d: "d = get_domain (url task)" and q: "q = q0 @ [task]"
        and q0: "q0 = [] \<or> (get_domain (url task), q0) \<in> set (domain_queues s)"
        by blast
      from t q have "t = task \<or> t \<in> set q0" by auto
      then show ?thesis
      proof
        assume "t = task"
        with d show ?thesis by simp
      next
        assume tq: "t \<in> set q0"
        with q0 have "(get_domain (url task), q0) \<in> set (domain_queues s)" by auto
        with assms tq d show ?thesis by (auto simp: filed_def)
      qed
    qed
  qed
  ultimately show ?thesis by (simp add: filed_def dq)
qed

lemma get_next_url_filed:
  assumes "filed s"
  shows "filed (snd (get_next_url s now ok))"
proof (cases "served_domain s now")
  case None
  with assms show ?thesis by (simp add: get_next_url_unserved)
next
  case (Some h)
  from get_next_url_served_eq [OF Some, of ok] obtain b i where
    fb: "find_best None 0 (queue_of (domain_queues s) h) = Some (b, i)"
    and dq: "domain_queues (snd (get_next_url s now ok))
      = queue_update (domain_queues s) h
          (take i (queue_of (domain_queues s) h) @ drop (i + 1) (queue_of (domain_queues s) h))"
    by auto
  let ?q = "queue_of (domain_queues s) h"
  from served_domain_in_available [OF Some] obtain t a where
    "(h, t, a) \<in> set (available_domains s now (domain_queues s))" by blast
  then obtain x xs where hx: "(h, x # xs) \<in> set (domain_queues s)"
    using available_domains_iff [of h t a s now "domain_queues s"] by blast
  from assms have dist: "distinct (map fst (domain_queues s))" by (simp add: filed_def)
  from queue_of_distinct [OF dist hx] have qh: "(h, ?q) \<in> set (domain_queues s)"
    using hx by simp
  have "distinct (map fst (domain_queues (snd (get_next_url s now ok))))"
    using dist by (rule get_next_url_distinct)
  moreover have "\<forall>(d, q) \<in> set (domain_queues (snd (get_next_url s now ok))).
      \<forall>t \<in> set q. get_domain (url t) = d"
  proof (clarify)
    fix d q t
    assume m: "(d, q) \<in> set (domain_queues (snd (get_next_url s now ok)))" and t: "t \<in> set q"
    from m dq have "(d, q) \<in> set (domain_queues s) \<or> (d = h \<and> q = take i ?q @ drop (i + 1) ?q)"
      using set_queue_update by simp
    then show "get_domain (url t) = d"
    proof
      assume "(d, q) \<in> set (domain_queues s)"
      with assms t show ?thesis by (auto simp: filed_def)
    next
      assume dq': "d = h \<and> q = take i ?q @ drop (i + 1) ?q"
      with t have "t \<in> set (take i ?q) \<or> t \<in> set (drop (i + 1) ?q)" by simp
      then have "t \<in> set ?q" by (auto dest: in_set_takeD in_set_dropD)
      with assms qh dq' show ?thesis by (auto simp: filed_def)
    qed
  qed
  ultimately show ?thesis by (simp add: filed_def)
qed

lemma step_filed:
  assumes "filed s"
  shows "filed (step s op)"
proof (cases op)
  case (Add task ok)
  with assms show ?thesis by (simp add: add_url_filed)
next
  case (Next t ok)
  with assms show ?thesis by (simp add: get_next_url_filed)
next
  case (MarkProcessed u ok)
  with assms show ?thesis by (simp add: mark_processed_def Let_def filed_def)
next
  case (MarkFailed task m ok)
  show ?thesis
  proof (cases "retry_count task < m")
    case True
    with MarkFailed show ?thesis
      using add_url_filed [OF assms] by (simp add: mark_failed_def Let_def)
  next
    case False
    with MarkFailed assms show ?thesis
      by (simp add: mark_failed_def Let_def mark_processed_def filed_def)
  qed
next
  case (Cleanup ok)
  with assms show ?thesis
    by (auto simp: cleanup_def Let_def filed_def distinct_map_filter)
qed

lemma run_filed: "filed s \<Longrightarrow> filed (run s ops)"
  by (induction ops arbitrary: s) (simp_all add: step_filed)

lemma init_filed: "filed (run (URLFrontier_init r d) ops)"
  by (rule run_filed) (simp add: URLFrontier_init_def filed_def)


















subsection \<open>\<open>mark_failed\<close> on a URL that is already processed\<close>








section \<open>Properties of the duplicate detector\<close>

lemma check_duplicate_flags:
  "url_duplicate (fst (check_duplicate H d p)) = (url_hash_of H p \<in> url_hashes d)"
  "content_duplicate (fst (check_duplicate H d p))
     = (content_hash_of H p \<noteq> [] \<and> content_hash_of H p \<in> content_hashes d)"
  "title_duplicate (fst (check_duplicate H d p))
     = (title_hash_of H p \<noteq> [] \<and> title_hash_of H p \<in> title_hashes d)"
  "fuzzy_duplicate (fst (check_duplicate H d p))
     = (fuzzy_hash_of H p \<noteq> [] \<and> fuzzy_hash_of H p \<in> fuzzy_hashes d)"
  by (simp_all add: check_duplicate_def Let_def)

lemma add_content_sets:
  "url_hashes (add_content H d oks p) = insert (url_hash_of H p) (url_hashes d)"
  "content_hashes (add_content H d oks p)
     = (if content_hash_of H p \<noteq> [] then insert (content_hash_of H p) (content_hashes d)
        else content_hashes d)"
  "title_hashes (add_content H d oks p)
     = (if title_hash_of H p \<noteq> [] then insert (title_hash_of H p) (title_hashes d)
        else title_hashes d)"
  "fuzzy_hashes (add_content H d oks p)
     = (if fuzzy_hash_of H p \<noteq> [] then insert (fuzzy_hash_of H p) (fuzzy_hashes d)
        else fuzzy_hashes d)"
  by (simp_all add: add_content_def Let_def)

lemma hashes_empty_iff:
  assumes "\<forall>x. sha256_hexdigest H x \<noteq> []" and "\<forall>x. md5_hexdigest H x \<noteq> []"
    and "\<forall>f. md5_json_hexdigest H f \<noteq> []"
  shows "content_hash_of H p \<noteq> [] \<longleftrightarrow> or_empty (pc_content p) \<noteq> []"
    and "title_hash_of H p \<noteq> [] \<longleftrightarrow> or_empty (pc_title p) \<noteq> []"
    and "fuzzy_hash_of H p \<noteq> [] \<longleftrightarrow> or_empty (pc_content p) \<noteq> []"
  using assms
  by (simp_all add: content_hash_of_def title_hash_of_def fuzzy_hash_of_def hash_content_def
        hash_title_def create_fuzzy_hash_def Let_def)

text \<open>
  C8, amended. The digests never being empty: after \<open>add_content\<close> of a page,
  \<open>check_duplicate\<close> of the same page reports a URL duplicate, a content duplicate
  exactly when the content is not empty, a title duplicate exactly when the title is not
  empty, and a fuzzy duplicate exactly when the content is not empty. In any state of
  the detector an empty content, title or fuzzy hash does not set its flag.
\<close>

theorem add_content_then_check_duplicate:
  assumes "\<forall>x. sha256_hexdigest H x \<noteq> []" and "\<forall>x. md5_hexdigest H x \<noteq> []"
    and "\<forall>f. md5_json_hexdigest H f \<noteq> []"
  shows "url_duplicate (fst (check_duplicate H (add_content H d oks p) p))
    \<and> (content_duplicate (fst (check_duplicate H (add_content H d oks p) p))
         \<longleftrightarrow> or_empty (pc_content p) \<noteq> [])
    \<and> (title_duplicate (fst (check_duplicate H (add_content H d oks p) p))
         \<longleftrightarrow> or_empty (pc_title p) \<noteq> [])
    \<and> (fuzzy_duplicate (fst (check_duplicate H (add_content H d oks p) p))
         \<longleftrightarrow> or_empty (pc_content p) \<noteq> [])
    \<and> (content_hash_of H p = [] \<longrightarrow> \<not> content_duplicate (fst (check_duplicate H d' p)))
    \<and> (title_hash_of H p = [] \<longrightarrow> \<not> title_duplicate (fst (check_duplicate H d' p)))
    \<and> (fuzzy_hash_of H p = [] \<longrightarrow> \<not> fuzzy_duplicate (fst (check_duplicate H d' p)))"
  using hashes_empty_iff [OF assms, of p]
  by (simp add: check_duplicate_flags add_content_sets)

theorem add_content_then_check_duplicate_witness:
  "(\<forall>x. sha256_hexdigest hashlib0 x \<noteq> []) \<and> (\<forall>x. md5_hexdigest hashlib0 x \<noteq> [])
   \<and> (\<forall>f. md5_json_hexdigest hashlib0 f \<noteq> [])
   \<and> url_duplicate (fst (check_duplicate hashlib0
         (add_content hashlib0 (DuplicateDetector_init redis0) [] page_hello) page_hello))
   \<and> content_duplicate (fst (check_duplicate hashlib0
         (add_content hashlib0 (DuplicateDetector_init redis0) [] page_hello) page_hello))
   \<and> title_duplicate (fst (check_duplicate hashlib0
         (add_content hashlib0 (DuplicateDetector_init redis0) [] page_hello) page_hello))
   \<and> fuzzy_duplicate (fst (check_duplicate hashlib0
         (add_content hashlib0 (DuplicateDetector_init redis0) [] page_hello) page_hello))
   \<and> content_hash_of hashlib0 page_empty = []
   \<and> \<not> content_duplicate (fst (check_duplicate hashlib0
         (add_content hashlib0 (DuplicateDetector_init redis0) [] page_hello) page_empty))"
proof -
  have h1: "\<forall>x. sha256_hexdigest hashlib0 x \<noteq> []" by (simp add: hashlib0_def)
  have h2: "\<forall>x. md5_hexdigest hashlib0 x \<noteq> []" by (simp add: hashlib0_def)
  have h3: "\<forall>f. md5_json_hexdigest hashlib0 f \<noteq> []" by (simp add: hashlib0_def)
  have e: "content_hash_of hashlib0 page_empty = []"
    by (simp add: content_hash_of_def hash_content_def page_empty_def ParsedContent_init_def
          or_empty_def)
  show ?thesis
    using h1 h2 h3 e
      add_content_then_check_duplicate [OF h1 h2 h3,
        of "DuplicateDetector_init redis0" "[]" page_hello]
      add_content_then_check_duplicate [OF h1 h2 h3,
        of _ _ page_empty
           "add_content hashlib0 (DuplicateDetector_init redis0) [] page_hello"]
    by (simp add: page_hello_def or_empty_def)
qed

text \<open>
  C8, as stated, fails on a page without content: \<open>add_content\<close> followed by
  \<open>check_duplicate\<close> does not report all four duplicates.
\<close>

theorem add_then_check_empty_content_counterexample:
  "\<not> (url_duplicate (fst (check_duplicate hashlib0
          (add_content hashlib0 (DuplicateDetector_init redis0) [] page_empty) page_empty))
      \<and> content_duplicate (fst (check_duplicate hashlib0
          (add_content hashlib0 (DuplicateDetector_init redis0) [] page_empty) page_empty))
      \<and> title_duplicate (fst (check_duplicate hashlib0
          (add_content hashlib0 (DuplicateDetector_init redis0) [] page_empty) page_empty))
      \<and> fuzzy_duplicate (fst (check_duplicate hashlib0
          (add_content hashlib0 (DuplicateDetector_init redis0) [] page_empty) page_empty)))"
  by (simp add: check_duplicate_flags content_hash_of_def hash_content_def page_empty_def
        ParsedContent_init_def or_empty_def)


subsection \<open>The normalization of URLs\<close>



































section \<open>Properties of the fetcher\<close>

lemma chunk_bytes_simps:
  "chunk_bytes (Chunk chunk) = chunk" "chunk_bytes StreamError = []"
  by (simp_all add: chunk_bytes_def)

lemma read_chunks_Some:
  "read_chunks m acc items = Some bs \<Longrightarrow> length acc \<le> m \<Longrightarrow>
   bs = acc @ concat (map chunk_bytes items)
   \<and> (\<forall>k \<le> length items. length (acc @ concat (map chunk_bytes (take k items))) \<le> m)"
proof (induction m acc items rule: read_chunks.induct)
  case (1 max_size content_bytes)
  then show ?case by simp
next
  case (2 max_size content_bytes rest)
  then show ?case by simp
next
  case (3 max_size content_bytes chunk rest)
  from "3.prems" have small: "\<not> length (content_bytes @ chunk) > max_size"
    and rec: "read_chunks max_size (content_bytes @ chunk) rest = Some bs"
    by (auto split: if_splits)
  from "3.IH" [OF small rec] small
  have ih: "bs = (content_bytes @ chunk) @ concat (map chunk_bytes rest)"
    "\<forall>k \<le> length rest.
       length ((content_bytes @ chunk) @ concat (map chunk_bytes (take k rest))) \<le> max_size"
    by simp_all
  have "\<forall>k \<le> length (Chunk chunk # rest).
     length (content_bytes @ concat (map chunk_bytes (take k (Chunk chunk # rest)))) \<le> max_size"
  proof (intro allI impI)
    fix k
    assume k: "k \<le> length (Chunk chunk # rest)"
    show "length (content_bytes @ concat (map chunk_bytes (take k (Chunk chunk # rest))))
        \<le> max_size"
    proof (cases k)
      case 0
      with "3.prems" show ?thesis by simp
    next
      case (Suc j)
      with k have "j \<le> length rest" by simp
      with ih(2) Suc show ?thesis by (simp add: chunk_bytes_simps)
    qed
  qed
  with ih(1) show ?case by (simp add: chunk_bytes_simps)
qed

lemma read_content_safely_Some:
  assumes "read_content_safely C resp m = Some content"
  shows "declared_length_within resp m
    \<and> (\<forall>k \<le> length (resp_body resp). cumulative_size (resp_body resp) k \<le> m)"
proof -
  from assms have d: "declared_too_large resp m = Inr False"
    by (auto simp: read_content_safely_def split: sum.splits bool.splits)
  then have dl: "declared_length_within resp m"
    by (auto simp: declared_too_large_def declared_length_within_def
             split: option.splits if_splits)
  from assms d obtain bs where "read_chunks m [] (resp_body resp) = Some bs"
    by (auto simp: read_content_safely_def split: option.splits)
  from read_chunks_Some [OF this]
  have "\<forall>k \<le> length (resp_body resp). cumulative_size (resp_body resp) k \<le> m"
    by (simp add: cumulative_size_def)
  with dl show ?thesis by simp
qed

lemma fetch_page_content:
  "fr_content (fst (fetch_page C f env u)) = Some content \<Longrightarrow>
   \<exists>resp. page_reply env = Inr resp
     \<and> read_content_safely C resp default_max_size = Some content"
  by (auto simp: fetch_page_def Let_def FetchResult_init_def split: sum.splits if_splits)

lemma fetch_content:
  "fr_content (fst (fetch R C f env u)) = Some content \<Longrightarrow>
   \<exists>resp. page_reply env = Inr resp
     \<and> read_content_safely C resp default_max_size = Some content"
  by (auto simp: fetch_def Let_def FetchResult_init_def
           split: option.splits prod.splits if_splits dest: fetch_page_content)

text \<open>
  C7. If \<open>fetch\<close> returns content, the page request was answered by a response whose
  declared Content-Length is absent, empty or an integer of at most 10 MiB, and at no
  chunk did the bytes read so far exceed 10 MiB. Conversely, when the declared length
  is not within the limit or the bytes read exceed 10 MiB at some chunk, the content
  of the result is \<open>None\<close>.
\<close>

theorem fetch_content_within_size_limits:
  "(fr_content (fst (fetch R C f env u)) = Some content \<longrightarrow>
      (\<exists>resp. page_reply env = Inr resp
         \<and> declared_length_within resp (10 * 1024 * 1024)
         \<and> (\<forall>k \<le> length (resp_body resp).
               cumulative_size (resp_body resp) k \<le> 10 * 1024 * 1024)))
   \<and> (page_reply env = Inr resp
        \<and> (\<not> declared_length_within resp (10 * 1024 * 1024)
            \<or> (\<exists>k \<le> length (resp_body resp).
                  cumulative_size (resp_body resp) k > 10 * 1024 * 1024))
      \<longrightarrow> fr_content (fst (fetch R C f env u)) = None)"
proof (intro conjI impI)
  assume a: "fr_content (fst (fetch R C f env u)) = Some content"
  from fetch_content [OF a] obtain resp where r: "page_reply env = Inr resp"
    and c: "read_content_safely C resp default_max_size = Some content" by blast
  from read_content_safely_Some [OF c] r
  show "\<exists>resp. page_reply env = Inr resp
         \<and> declared_length_within resp (10 * 1024 * 1024)
         \<and> (\<forall>k \<le> length (resp_body resp).
               cumulative_size (resp_body resp) k \<le> 10 * 1024 * 1024)"
    by (auto simp: default_max_size_def)
next
  assume b: "page_reply env = Inr resp
        \<and> (\<not> declared_length_within resp (10 * 1024 * 1024)
            \<or> (\<exists>k \<le> length (resp_body resp).
                  cumulative_size (resp_body resp) k > 10 * 1024 * 1024))"
  show "fr_content (fst (fetch R C f env u)) = None"
  proof (cases "fr_content (fst (fetch R C f env u))")
    case None
    then show ?thesis .
  next
    case (Some content')
    from fetch_content [OF Some] b
    have c: "read_content_safely C resp default_max_size = Some content'" by auto
    from read_content_safely_Some [OF c] b show ?thesis
      by (auto simp: default_max_size_def)
  qed
qed

lemma can_fetch_nothing_cached:
  "robots_cache c = Map.empty \<Longrightarrow> can_fetch R c t reply u = (True, c)"
  by (simp add: can_fetch_def fetch_robots_def read_robots_txt_def
           split: sum.splits prod.splits)

lemma fetch_fresh_checker:
  "fetch R C (WebFetcher_init ua True) env u
     = fetch_page C (WebFetcher_init ua True) env u"
  by (simp add: fetch_def WebFetcher_init_def RobotsChecker_init_def
        can_fetch_nothing_cached)

lemma headers_examples:
  "headers_get [(''Content-Type'', ''text/html'')] ''content-type'' = Some ''text/html''"
  "headers_get [(''Content-Type'', ''text/html'')] ''content-length'' = None"
  "headers_get [(''Content-Type'', ''text/html''), (''Content-Length'', ''6'')] ''content-type''
     = Some ''text/html''"
  "headers_get [(''Content-Type'', ''text/html''), (''Content-Length'', ''6'')] ''content-length''
     = Some ''6''"
  "headers_get [(''Content-Type'', ''text/html''), (''content-length'', ''10485761'')]
     ''content-type'' = Some ''text/html''"
  "headers_get [(''Content-Type'', ''text/html''), (''content-length'', ''10485761'')]
     ''content-length'' = Some ''10485761''"
  by code_simp+

lemma is_text_html: "is_text_content (lower ''text/html'')"
  by code_simp

lemma py_int_examples: "py_int ''6'' = Some 6" "py_int ''10485761'' = Some 10485761"
  by (simp_all add: py_int_def decimal_value_def digit_value_def digits_def int_space_def
        Let_def)

lemma read_secret:
  "read_content_safely codecs0 response_secret default_max_size = Some ''secret''"
  by (simp add: read_content_safely_def declared_too_large_def response_secret_def
        headers_examples py_int_examples default_max_size_def decode_content_def codecs0_def)

lemma fetch_secret:
  "fr_content (fst (fetch robotparser0 codecs0 (WebFetcher_init ''crawler'' True)
      (fetch_env_of response_secret) ''https://b.example/private'')) = Some ''secret''"
  using read_secret
  by (simp add: fetch_fresh_checker fetch_page_def fetch_env_of_def Let_def
        FetchResult_init_def response_secret_def headers_examples is_text_html)

lemma declared_large_not_within:
  "\<not> declared_length_within (response_secret\<lparr>resp_headers :=
         [(''Content-Type'', ''text/html''), (''content-length'', ''10485761'')]\<rparr>)
       (10 * 1024 * 1024)"
  by (simp add: declared_length_within_def headers_examples py_int_examples)

theorem fetch_content_within_size_limits_witness:
  "fr_content (fst (fetch robotparser0 codecs0 (WebFetcher_init ''crawler'' True)
      (fetch_env_of response_secret) ''https://b.example/private'')) = Some ''secret''
   \<and> (\<exists>resp. page_reply (fetch_env_of response_secret) = Inr resp
         \<and> declared_length_within resp (10 * 1024 * 1024)
         \<and> (\<forall>k \<le> length (resp_body resp).
               cumulative_size (resp_body resp) k \<le> 10 * 1024 * 1024))
   \<and> \<not> declared_length_within (response_secret\<lparr>resp_headers :=
         [(''Content-Type'', ''text/html''), (''content-length'', ''10485761'')]\<rparr>)
       (10 * 1024 * 1024)
   \<and> fr_content (fst (fetch robotparser0 codecs0 (WebFetcher_init ''crawler'' True)
      (fetch_env_of (response_secret\<lparr>resp_headers :=
         [(''Content-Type'', ''text/html''), (''content-length'', ''10485761'')]\<rparr>))
      ''https://b.example/private'')) = None"
  using fetch_secret declared_large_not_within
    fetch_content_within_size_limits
      [of robotparser0 codecs0 "WebFetcher_init ''crawler'' True"
          "fetch_env_of response_secret" "''https://b.example/private''" "''secret''"]
    fetch_content_within_size_limits
      [of robotparser0 codecs0 "WebFetcher_init ''crawler'' True"
          "fetch_env_of (response_secret\<lparr>resp_headers :=
             [(''Content-Type'', ''text/html''), (''content-length'', ''10485761'')]\<rparr>)"
          "''https://b.example/private''" _
          "response_secret\<lparr>resp_headers :=
             [(''Content-Type'', ''text/html''), (''content-length'', ''10485761'')]\<rparr>"]
  by (simp add: fetch_env_of_def)


text \<open>
  C5. The origin answers the request for \<open>/robots.txt\<close> with status 200 and a file that
  disallows \<open>/private\<close> for every user agent, and the parser of the example allows
  nothing. \<open>can_fetch\<close> still returns \<open>True\<close>, and \<open>fetch\<close> requests the page and returns
  it with status 200 and no error: \<open>read_robots_txt\<close> raises AttributeError, which the
  handler of \<open>can_fetch\<close> answers with \<open>True\<close>.
\<close>

theorem robots_disallow_not_enforced:
  "fst (can_fetch robotparser0 (RobotsChecker_init ''crawler'') 100 (Inr (200, robots_txt_b))
          ''https://b.example/private'')
   \<and> fr_status_code (fst (fetch robotparser0 codecs0 (WebFetcher_init ''crawler'' True)
         (fetch_env_of response_secret) ''https://b.example/private'')) = 200
   \<and> fr_error (fst (fetch robotparser0 codecs0 (WebFetcher_init ''crawler'' True)
         (fetch_env_of response_secret) ''https://b.example/private'')) = None
   \<and> fr_content (fst (fetch robotparser0 codecs0 (WebFetcher_init ''crawler'' True)
         (fetch_env_of response_secret) ''https://b.example/private'')) = Some ''secret''"
  using read_secret
  by (simp add: can_fetch_nothing_cached RobotsChecker_init_def
        fetch_fresh_checker fetch_page_def fetch_env_of_def Let_def
        FetchResult_init_def response_secret_def headers_examples is_text_html)


section \<open>Properties of the scheduler\<close>

lemma fetch_page_status:
  "page_reply env = Inr resp \<Longrightarrow>
   fr_status_code (fst (fetch_page C f env u)) = resp_status resp"
  by (simp add: fetch_page_def Let_def FetchResult_init_def)

lemma fetch_status:
  "page_reply env = Inr resp \<Longrightarrow>
   fr_status_code (fst (fetch R C f env u)) = resp_status resp
   \<or> (fr_status_code (fst (fetch R C f env u)) = 403
       \<and> fr_error (fst (fetch R C f env u)) = Some ''Blocked by robots.txt'')"
  by (auto simp: fetch_def Let_def FetchResult_init_def fetch_page_status
           split: option.splits prod.splits)

lemma process_url_failed:
  assumes "fetch_failed (fetch_result_of L st env task) \<or> process_url_raises L st env task"
  shows "url_frontier (process_url L st env task)
    = snd (snd (mark_failed (url_frontier st) (pe_mark_ok env) task (retry_attempts st)))"
proof -
  obtain fetch_result fetcher' where f:
    "fetch (lib_robotparser L) (lib_codecs L) (fetcher st) (pe_fetch env) (url task)
       = (fetch_result, fetcher')"
    by (cases "fetch (lib_robotparser L) (lib_codecs L) (fetcher st) (pe_fetch env) (url task)")
  then have fr: "fetch_result_of L st env task = fetch_result"
    by (simp add: fetch_result_of_def)
  let ?p = "(lib_parse L (url task) (or_empty (fr_content fetch_result)))\<lparr>pc_url := url task\<rparr>"
  have pc: "parsed_content_of L st env task = ?p"
    by (simp add: parsed_content_of_def fr)
  obtain duplicate_check detector' where c:
    "check_duplicate (lib_hashlib L) (duplicate_detector st) ?p = (duplicate_check, detector')"
    by (cases "check_duplicate (lib_hashlib L) (duplicate_detector st) ?p")
  show ?thesis
  proof (cases "urls_crawled (crawl_stats st) + 1 = 0")
    case True
    then show ?thesis by (simp add: process_url_def f Let_def fail_task_def)
  next
    case n0: False
    show ?thesis
    proof (cases "fetch_failed fetch_result")
      case True
      with n0 show ?thesis by (simp add: process_url_def f Let_def fail_task_def)
    next
      case nf: False
      with assms n0 fr pc c have r:
        "\<not> utf8_encodable (or_empty (fr_content fetch_result))
         \<or> check_duplicate_raises ?p
         \<or> (\<not> is_duplicate duplicate_check False \<and> isl (pe_store env))"
        by (simp add: process_url_raises_def)
      show ?thesis
      proof (cases "utf8_encodable (or_empty (fr_content fetch_result))")
        case False
        with n0 nf show ?thesis by (simp add: process_url_def f Let_def fail_task_def)
      next
        case enc: True
        show ?thesis
        proof (cases "check_duplicate_raises ?p")
          case True
          with n0 nf enc show ?thesis by (simp add: process_url_def f Let_def fail_task_def)
        next
          case nr: False
          with r enc have nd: "\<not> is_duplicate duplicate_check False" and "isl (pe_store env)"
            by simp_all
          then obtain e where "pe_store env = Inl e" by (cases "pe_store env") simp_all
          with n0 nf enc nr nd show ?thesis
            by (simp add: process_url_def f c Let_def fail_task_def)
        qed
      qed
    qed
  qed
qed

lemma process_url_fetched:
  assumes "\<not> fetch_failed (fetch_result_of L st env task)"
    and "\<not> process_url_raises L st env task"
  shows "\<exists>X. url_frontier (process_url L st env task)
           = mark_processed X (pe_mark_ok env) (url task)
      \<and> (X = url_frontier st
          \<or> X = queue_new_urls (url_frontier st) (max_depth st) env
                (parsed_content_of L st env task) (depth task + 1))"
proof -
  obtain fetch_result fetcher' where f:
    "fetch (lib_robotparser L) (lib_codecs L) (fetcher st) (pe_fetch env) (url task)
       = (fetch_result, fetcher')"
    by (cases "fetch (lib_robotparser L) (lib_codecs L) (fetcher st) (pe_fetch env) (url task)")
  then have fr: "fetch_result_of L st env task = fetch_result"
    by (simp add: fetch_result_of_def)
  let ?p = "(lib_parse L (url task) (or_empty (fr_content fetch_result)))\<lparr>pc_url := url task\<rparr>"
  have pc: "parsed_content_of L st env task = ?p"
    by (simp add: parsed_content_of_def fr)
  obtain duplicate_check detector' where c:
    "check_duplicate (lib_hashlib L) (duplicate_detector st) ?p = (duplicate_check, detector')"
    by (cases "check_duplicate (lib_hashlib L) (duplicate_detector st) ?p")
  from assms fr pc c have nf: "\<not> fetch_failed fetch_result"
    and n0: "urls_crawled (crawl_stats st) + 1 \<noteq> 0"
    and enc: "utf8_encodable (or_empty (fr_content fetch_result))"
    and nr: "\<not> check_duplicate_raises ?p"
    and st: "is_duplicate duplicate_check False \<or> \<not> isl (pe_store env)"
    by (simp_all add: process_url_raises_def)
  show ?thesis
  proof (cases "is_duplicate duplicate_check False")
    case True
    with nf n0 enc nr have "url_frontier (process_url L st env task)
        = mark_processed (url_frontier st) (pe_mark_ok env) (url task)"
      by (simp add: process_url_def f c Let_def)
    then show ?thesis by blast
  next
    case False
    with st obtain stored where "pe_store env = Inr stored" by (cases "pe_store env") simp_all
    with False nf n0 enc nr have "url_frontier (process_url L st env task)
        = mark_processed
            (queue_new_urls (url_frontier st) (max_depth st) env ?p (depth task + 1))
            (pe_mark_ok env) (url task)"
      by (simp add: process_url_def f c Let_def)
    then show ?thesis using pc by auto
  qed
qed

lemma mark_processed_mem: "u \<in> processed_urls (mark_processed s ok u)"
  by (simp add: mark_processed_def Let_def)

lemma mark_failed_frontier:
  "(retry_count task < m \<and> url task \<notin> processed_urls s \<longrightarrow>
      queue_of (domain_queues (snd (snd (mark_failed s ok task m)))) (get_domain (url task))
        = queue_of (domain_queues s) (get_domain (url task))
          @ [task\<lparr>retry_count := retry_count task + 1, priority := LOW\<rparr>]
      \<and> processed_urls (snd (snd (mark_failed s ok task m))) = processed_urls s)
   \<and> (retry_count task < m \<and> url task \<in> processed_urls s \<longrightarrow>
        snd (snd (mark_failed s ok task m)) = s)
   \<and> (\<not> retry_count task < m \<longrightarrow>
        url task \<in> processed_urls (snd (snd (mark_failed s ok task m)))
        \<and> domain_queues (snd (snd (mark_failed s ok task m))) = domain_queues s)"
  by (auto simp: mark_failed_def add_url_def mark_processed_def Let_def queue_of_queue_append)


text \<open>
  C6, amended. A fetch that is answered by a response returns the status of the
  response (or the robots refusal). \<open>_process_url\<close> decides on the error and the content
  of the result, not on the status. When the result has an error or no content, or
  when a statement of the \<open>try\<close> body raises (the content cannot be encoded as UTF-8, a
  hash raises, the store raises), the frontier is left as \<open>mark_failed\<close> leaves it:
  while retries remain and the URL is not processed, the task is appended to the queue
  of its host with one more retry and priority \<open>LOW\<close>, and the processed set is as it
  was; while retries remain and the URL is already processed, the frontier is unchanged
  and the task is not queued again; when no retry remains, the URL is marked processed
  and no queue changes. When the result has content and no error and nothing raises,
  the URL holding no lone surrogate, the URL is marked processed, on the frontier as it
  was or as \<open>_queue_new_urls\<close> left it, and \<open>mark_failed\<close> is not called.
\<close>

theorem process_url_retries_unless_content:
  "(page_reply (pe_fetch env) = Inr resp \<longrightarrow>
      fr_status_code (fetch_result_of L st env task) = resp_status resp
      \<or> fr_error (fetch_result_of L st env task) = Some ''Blocked by robots.txt'')
   \<and> (fetch_failed (fetch_result_of L st env task) \<or> process_url_raises L st env task \<longrightarrow>
        url_frontier (process_url L st env task)
          = snd (snd (mark_failed (url_frontier st) (pe_mark_ok env) task (retry_attempts st)))
        \<and> (retry_count task < retry_attempts st \<and> url task \<notin> processed_urls (url_frontier st)
            \<longrightarrow> queue_of (domain_queues (url_frontier (process_url L st env task)))
                   (get_domain (url task))
                 = queue_of (domain_queues (url_frontier st)) (get_domain (url task))
                   @ [task\<lparr>retry_count := retry_count task + 1, priority := LOW\<rparr>]
               \<and> processed_urls (url_frontier (process_url L st env task))
                   = processed_urls (url_frontier st))
        \<and> (retry_count task < retry_attempts st \<and> url task \<in> processed_urls (url_frontier st)
            \<longrightarrow> url_frontier (process_url L st env task) = url_frontier st)
        \<and> (\<not> retry_count task < retry_attempts st
            \<longrightarrow> url task \<in> processed_urls (url_frontier (process_url L st env task))
               \<and> domain_queues (url_frontier (process_url L st env task))
                   = domain_queues (url_frontier st)))
   \<and> (utf8_encodable (url task) \<and> \<not> fetch_failed (fetch_result_of L st env task)
        \<and> \<not> process_url_raises L st env task \<longrightarrow>
        url task \<in> processed_urls (url_frontier (process_url L st env task))
        \<and> (\<exists>X. url_frontier (process_url L st env task)
                   = mark_processed X (pe_mark_ok env) (url task)
               \<and> (X = url_frontier st
                   \<or> X = queue_new_urls (url_frontier st) (max_depth st) env
                         (parsed_content_of L st env task) (depth task + 1))))"
proof (intro conjI impI)
  assume "page_reply (pe_fetch env) = Inr resp"
  from fetch_status [OF this]
  show "fr_status_code (fetch_result_of L st env task) = resp_status resp
      \<or> fr_error (fetch_result_of L st env task) = Some ''Blocked by robots.txt''"
    unfolding fetch_result_of_def by blast
next
  assume a: "fetch_failed (fetch_result_of L st env task) \<or> process_url_raises L st env task"
  from process_url_failed [OF a]
  show e: "url_frontier (process_url L st env task)
          = snd (snd (mark_failed (url_frontier st) (pe_mark_ok env) task (retry_attempts st)))" .
  {
    assume "retry_count task < retry_attempts st \<and> url task \<notin> processed_urls (url_frontier st)"
    then show "queue_of (domain_queues (url_frontier (process_url L st env task)))
                   (get_domain (url task))
                 = queue_of (domain_queues (url_frontier st)) (get_domain (url task))
                   @ [task\<lparr>retry_count := retry_count task + 1, priority := LOW\<rparr>]"
      and "processed_urls (url_frontier (process_url L st env task))
                   = processed_urls (url_frontier st)"
      using mark_failed_frontier [of task "retry_attempts st" "url_frontier st" "pe_mark_ok env"]
      by (simp_all add: e)
  }
  {
    assume "retry_count task < retry_attempts st \<and> url task \<in> processed_urls (url_frontier st)"
    then show "url_frontier (process_url L st env task) = url_frontier st"
      using mark_failed_frontier [of task "retry_attempts st" "url_frontier st" "pe_mark_ok env"]
      by (simp add: e)
  }
  {
    assume "\<not> retry_count task < retry_attempts st"
    then show "url task \<in> processed_urls (url_frontier (process_url L st env task))"
      and "domain_queues (url_frontier (process_url L st env task))
                   = domain_queues (url_frontier st)"
      using mark_failed_frontier [of task "retry_attempts st" "url_frontier st" "pe_mark_ok env"]
      by (simp_all add: e)
  }
next
  assume a: "utf8_encodable (url task) \<and> \<not> fetch_failed (fetch_result_of L st env task)
        \<and> \<not> process_url_raises L st env task"
  then have ex: "\<exists>X. url_frontier (process_url L st env task)
                   = mark_processed X (pe_mark_ok env) (url task)
               \<and> (X = url_frontier st
                   \<or> X = queue_new_urls (url_frontier st) (max_depth st) env
                         (parsed_content_of L st env task) (depth task + 1))"
    using process_url_fetched [of L st env task] by simp
  then show "url task \<in> processed_urls (url_frontier (process_url L st env task))"
    using mark_processed_mem by auto
  from ex show "\<exists>X. url_frontier (process_url L st env task)
                   = mark_processed X (pe_mark_ok env) (url task)
               \<and> (X = url_frontier st
                   \<or> X = queue_new_urls (url_frontier st) (max_depth st) env
                         (parsed_content_of L st env task) (depth task + 1))" .
qed


lemma read_404_empty:
  "read_content_safely codecs0 response_404_empty default_max_size = Some []"
  by (simp add: read_content_safely_def declared_too_large_def response_404_empty_def
        headers_examples decode_content_def codecs0_def)

lemma read_404_page:
  "read_content_safely codecs0 response_404_page default_max_size = Some ''not found''"
  by (simp add: read_content_safely_def declared_too_large_def response_404_page_def
        headers_examples default_max_size_def decode_content_def codecs0_def)

lemma read_surrogate:
  "read_content_safely codecs_escape response_surrogate default_max_size
     = Some [CHR 0xED, CHR 0xA0, CHR 0x80]"
  by (simp add: read_content_safely_def declared_too_large_def response_surrogate_def
        headers_examples default_max_size_def decode_content_def codecs_escape_def)

lemma fetch_404_empty:
  "fr_status_code (fst (fetch robotparser0 codecs0 (WebFetcher_init ''crawler'' True)
      (fetch_env_of response_404_empty) u)) = 404
   \<and> fr_error (fst (fetch robotparser0 codecs0 (WebFetcher_init ''crawler'' True)
      (fetch_env_of response_404_empty) u)) = None
   \<and> fr_content (fst (fetch robotparser0 codecs0 (WebFetcher_init ''crawler'' True)
      (fetch_env_of response_404_empty) u)) = Some []"
  using read_404_empty
  by (simp add: fetch_fresh_checker fetch_page_def fetch_env_of_def Let_def
        FetchResult_init_def response_404_empty_def headers_examples is_text_html)

lemma fetch_404_page:
  "fr_status_code (fst (fetch robotparser0 codecs0 (WebFetcher_init ''crawler'' True)
      (fetch_env_of response_404_page) u)) = 404
   \<and> fr_error (fst (fetch robotparser0 codecs0 (WebFetcher_init ''crawler'' True)
      (fetch_env_of response_404_page) u)) = None
   \<and> fr_content (fst (fetch robotparser0 codecs0 (WebFetcher_init ''crawler'' True)
      (fetch_env_of response_404_page) u)) = Some ''not found''"
  using read_404_page
  by (simp add: fetch_fresh_checker fetch_page_def fetch_env_of_def Let_def
        FetchResult_init_def response_404_page_def headers_examples is_text_html)

lemma fetch_surrogate:
  "fr_status_code (fst (fetch robotparser0 codecs_escape (WebFetcher_init ''crawler'' True)
      (fetch_env_of response_surrogate) u)) = 200
   \<and> fr_error (fst (fetch robotparser0 codecs_escape (WebFetcher_init ''crawler'' True)
      (fetch_env_of response_surrogate) u)) = None
   \<and> fr_content (fst (fetch robotparser0 codecs_escape (WebFetcher_init ''crawler'' True)
      (fetch_env_of response_surrogate) u)) = Some [CHR 0xED, CHR 0xA0, CHR 0x80]"
  using read_surrogate
  by (simp add: fetch_fresh_checker fetch_page_def fetch_env_of_def Let_def
        FetchResult_init_def response_surrogate_def headers_examples is_text_html)

lemma scheduler0_fields:
  "fetcher scheduler0 = WebFetcher_init ''crawler'' True"
  "url_frontier scheduler0 = URLFrontier_init redis0 1"
  "retry_attempts scheduler0 = 3" "urls_crawled (crawl_stats scheduler0) = 0"
  "lib_robotparser libraries0 = robotparser0" "lib_codecs libraries0 = codecs0"
  "lib_robotparser libraries_escape = robotparser0" "lib_codecs libraries_escape = codecs_escape"
  "pe_fetch (process_env_of resp) = fetch_env_of resp"
  "pe_mark_ok (process_env_of resp) = True" "pe_store (process_env_of resp) = Inr True"
  by (simp_all add: scheduler0_def libraries0_def libraries_escape_def process_env_of_def)

lemma fetch_result_examples:
  "fr_status_code (fetch_result_of libraries0 scheduler0 (process_env_of response_404_empty) task)
     = 404"
  "fetch_failed (fetch_result_of libraries0 scheduler0 (process_env_of response_404_empty) task)"
  "fr_status_code (fetch_result_of libraries0 scheduler0 (process_env_of response_404_page) task)
     = 404"
  "\<not> fetch_failed (fetch_result_of libraries0 scheduler0 (process_env_of response_404_page) task)"
  "fr_content (fetch_result_of libraries0 scheduler0 (process_env_of response_404_page) task)
     = Some ''not found''"
  "fr_status_code
     (fetch_result_of libraries_escape scheduler0 (process_env_of response_surrogate) task) = 200"
  "\<not> fetch_failed
     (fetch_result_of libraries_escape scheduler0 (process_env_of response_surrogate) task)"
  "fr_content
     (fetch_result_of libraries_escape scheduler0 (process_env_of response_surrogate) task)
     = Some [CHR 0xED, CHR 0xA0, CHR 0x80]"
  using fetch_404_empty [of "url task"] fetch_404_page [of "url task"]
    fetch_surrogate [of "url task"]
  by (simp_all add: fetch_result_of_def scheduler0_fields fetch_failed_def truthy_def)

lemma surrogate_not_encodable: "\<not> utf8_encodable [CHR 0xED, CHR 0xA0, CHR 0x80]"
  by simp

lemma encodable_examples:
  "utf8_encodable ''https://a.example/''"
  "utf8_encodable ''not found''"
  "\<not> hash_raises (normalize_url ''https://a.example/'')"
  "\<not> hash_raises ''not found''"
  "\<not> hash_raises ''t''"
  by code_simp+

lemma page_404_does_not_raise:
  "\<not> process_url_raises libraries0 scheduler0 (process_env_of response_404_page) task_a"
proof -
  have u: "url task_a = ''https://a.example/''" by (simp add: task_a_def)
  have l: "lib_parse libraries0 = (\<lambda>u html. (ParsedContent_init u)\<lparr>pc_title := Some ''t'',
                                                    pc_content := Some html\<rparr>)"
    by (simp add: libraries0_def)
  show ?thesis
    by (simp add: process_url_raises_def fetch_result_examples scheduler0_fields or_empty_def
          encodable_examples check_duplicate_raises_def parsed_content_of_def l u)
qed

lemma surrogate_raises:
  "process_url_raises libraries_escape scheduler0 (process_env_of response_surrogate) task_a"
  by (simp add: process_url_raises_def fetch_result_examples scheduler0_fields or_empty_def)

lemma mark_failed_task_a:
  "processed_urls (snd (snd (mark_failed (URLFrontier_init redis0 1) True task_a 3))) = {}
   \<and> domain_queues (snd (snd (mark_failed (URLFrontier_init redis0 1) True task_a 3)))
       = [(''a.example'', [task_a\<lparr>retry_count := 1, priority := LOW\<rparr>])]"
  by (simp add: mark_failed_def add_url_def URLFrontier_init_def Let_def task_a_def
        get_domain_a)

text \<open>
  C6, as stated, fails on a response with status 404, content type \<open>text/html\<close> and an
  empty body: the URL is not marked processed, and the task is queued again with one
  more retry and priority \<open>LOW\<close>.
\<close>

theorem non_200_empty_body_is_retried:
  "fr_status_code (fst (fetch robotparser0 codecs0 (fetcher scheduler0)
      (fetch_env_of response_404_empty) (url task_a))) = 404
   \<and> url task_a \<notin> processed_urls (url_frontier
         (process_url libraries0 scheduler0 (process_env_of response_404_empty) task_a))
   \<and> domain_queues (url_frontier
         (process_url libraries0 scheduler0 (process_env_of response_404_empty) task_a))
       = [(''a.example'', [task_a\<lparr>retry_count := 1, priority := LOW\<rparr>])]"
proof -
  have "url_frontier (process_url libraries0 scheduler0 (process_env_of response_404_empty) task_a)
      = snd (snd (mark_failed (URLFrontier_init redis0 1) True task_a 3))"
    using process_url_failed [of libraries0 scheduler0 "process_env_of response_404_empty" task_a]
    by (simp add: scheduler0_fields fetch_result_examples)
  then show ?thesis
    using mark_failed_task_a fetch_404_empty [of "url task_a"]
    by (simp add: scheduler0_fields)
qed

theorem process_url_retries_unless_content_witness:
  "page_reply (pe_fetch (process_env_of response_404_page)) = Inr response_404_page
   \<and> fr_status_code (fetch_result_of libraries0 scheduler0 (process_env_of response_404_page)
        task_a) = resp_status response_404_page
   \<and> resp_status response_404_page = 404
   \<and> utf8_encodable (url task_a)
   \<and> \<not> fetch_failed (fetch_result_of libraries0 scheduler0 (process_env_of response_404_page)
          task_a)
   \<and> \<not> process_url_raises libraries0 scheduler0 (process_env_of response_404_page) task_a
   \<and> url task_a \<in> processed_urls (url_frontier
         (process_url libraries0 scheduler0 (process_env_of response_404_page) task_a))
   \<and> fetch_failed (fetch_result_of libraries0 scheduler0 (process_env_of response_404_empty)
        task_a)
   \<and> retry_count task_a < retry_attempts scheduler0
   \<and> url task_a \<notin> processed_urls (url_frontier scheduler0)
   \<and> queue_of (domain_queues (url_frontier
         (process_url libraries0 scheduler0 (process_env_of response_404_empty) task_a)))
        ''a.example''
       = [task_a\<lparr>retry_count := 1, priority := LOW\<rparr>]
   \<and> process_url_raises libraries_escape scheduler0 (process_env_of response_surrogate) task_a
   \<and> fr_error (fetch_result_of libraries_escape scheduler0 (process_env_of response_surrogate)
        task_a) = None
   \<and> fr_content (fetch_result_of libraries_escape scheduler0 (process_env_of response_surrogate)
        task_a) = Some [CHR 0xED, CHR 0xA0, CHR 0x80]
   \<and> queue_of (domain_queues (url_frontier
         (process_url libraries_escape scheduler0 (process_env_of response_surrogate) task_a)))
        ''a.example''
       = [task_a\<lparr>retry_count := 1, priority := LOW\<rparr>]
   \<and> retry_count task_b = retry_attempts scheduler0
   \<and> url task_b \<in> processed_urls (url_frontier
         (process_url libraries0 scheduler0 (process_env_of response_404_empty) task_b))"
proof -
  have p: "page_reply (pe_fetch (process_env_of response_404_page)) = Inr response_404_page"
    by (simp add: process_env_of_def fetch_env_of_def)
  have s: "resp_status response_404_page = 404" by (simp add: response_404_page_def)
  have t: "retry_count task_a = 0" "url task_a = ''https://a.example/''"
    "retry_count task_b = 3"
    by (simp_all add: task_a_def task_b_def)
  have q: "processed_urls (url_frontier scheduler0) = {}"
    "domain_queues (url_frontier scheduler0) = []"
    by (simp_all add: scheduler0_fields URLFrontier_init_def)
  have e: "utf8_encodable (url task_a)" by (simp add: t encodable_examples)
  have ha: "utf8_encodable (url task_a)
      \<and> \<not> fetch_failed (fetch_result_of libraries0 scheduler0
            (process_env_of response_404_page) task_a)
      \<and> \<not> process_url_raises libraries0 scheduler0 (process_env_of response_404_page) task_a"
    using e page_404_does_not_raise by (simp add: fetch_result_examples)
  have a: "url task_a \<in> processed_urls (url_frontier
         (process_url libraries0 scheduler0 (process_env_of response_404_page) task_a))"
    using process_url_retries_unless_content
        [of "process_env_of response_404_page" response_404_page libraries0 scheduler0 task_a,
         THEN conjunct2, THEN conjunct2, rule_format, OF ha, THEN conjunct1] .
  have r: "retry_count task_a < retry_attempts scheduler0
      \<and> url task_a \<notin> processed_urls (url_frontier scheduler0)"
    by (simp add: scheduler0_fields(3) t(1) q(1))
  have hb: "fetch_failed (fetch_result_of libraries0 scheduler0
        (process_env_of response_404_empty) task_a)
      \<or> process_url_raises libraries0 scheduler0 (process_env_of response_404_empty) task_a"
    by (simp add: fetch_result_examples)
  have b: "queue_of (domain_queues (url_frontier
         (process_url libraries0 scheduler0 (process_env_of response_404_empty) task_a)))
        (get_domain (url task_a))
      = queue_of (domain_queues (url_frontier scheduler0)) (get_domain (url task_a))
        @ [task_a\<lparr>retry_count := retry_count task_a + 1, priority := LOW\<rparr>]"
    using process_url_retries_unless_content
        [of "process_env_of response_404_empty" response_404_empty libraries0 scheduler0
            task_a, THEN conjunct2, THEN conjunct1, rule_format, OF hb,
         THEN conjunct2, THEN conjunct1, rule_format, OF r, THEN conjunct1] .
  have hc: "fetch_failed (fetch_result_of libraries_escape scheduler0
        (process_env_of response_surrogate) task_a)
      \<or> process_url_raises libraries_escape scheduler0 (process_env_of response_surrogate)
          task_a"
    by (simp add: surrogate_raises)
  have c: "queue_of (domain_queues (url_frontier
         (process_url libraries_escape scheduler0 (process_env_of response_surrogate) task_a)))
        (get_domain (url task_a))
      = queue_of (domain_queues (url_frontier scheduler0)) (get_domain (url task_a))
        @ [task_a\<lparr>retry_count := retry_count task_a + 1, priority := LOW\<rparr>]"
    using process_url_retries_unless_content
        [of "process_env_of response_surrogate" response_surrogate libraries_escape scheduler0
            task_a, THEN conjunct2, THEN conjunct1, rule_format, OF hc,
         THEN conjunct2, THEN conjunct1, rule_format, OF r, THEN conjunct1] .
  have hd: "fetch_failed (fetch_result_of libraries0 scheduler0
        (process_env_of response_404_empty) task_b)
      \<or> process_url_raises libraries0 scheduler0 (process_env_of response_404_empty) task_b"
    by (simp add: fetch_result_examples)
  have rb: "\<not> retry_count task_b < retry_attempts scheduler0"
    by (simp add: scheduler0_fields(3) t(3))
  have d: "url task_b \<in> processed_urls (url_frontier
         (process_url libraries0 scheduler0 (process_env_of response_404_empty) task_b))"
    using process_url_retries_unless_content
        [of "process_env_of response_404_empty" response_404_empty libraries0 scheduler0
            task_b, THEN conjunct2, THEN conjunct1, rule_format, OF hd,
         THEN conjunct2, THEN conjunct2, THEN conjunct2, rule_format, OF rb, THEN conjunct1] .
  have fe: "fr_error (fetch_result_of libraries_escape scheduler0
      (process_env_of response_surrogate) task_a) = None"
    using fetch_surrogate [of "url task_a"]
    by (simp add: fetch_result_of_def scheduler0_fields)
  from b c have "queue_of (domain_queues (url_frontier
         (process_url libraries0 scheduler0 (process_env_of response_404_empty) task_a)))
        ''a.example'' = [task_a\<lparr>retry_count := 1, priority := LOW\<rparr>]"
    and "queue_of (domain_queues (url_frontier
         (process_url libraries_escape scheduler0 (process_env_of response_surrogate) task_a)))
        ''a.example'' = [task_a\<lparr>retry_count := 1, priority := LOW\<rparr>]"
    by (simp_all add: t q get_domain_a queue_of_def)
  with p s e a d fe show ?thesis
    by (simp add: fetch_result_examples page_404_does_not_raise surrogate_raises t q
          scheduler0_fields(3))
qed


end
